theory Spec2Isabelle
  imports Main
begin

section \<open>The list component of createListComponent.js\<close>

text \<open>
  The component class returned by \<open>createListComponent\<close> is modelled by explicit state
  passing. JavaScript numbers (indices, pixel offsets) are integers; a value that the
  source leaves \<open>undefined\<close> (the field \<open>normalizedScrollLeft\<close> after a scroll request
  on a vertical list) is \<open>None\<close>. The comparison \<open>a < b\<close> of JavaScript is false as soon as
  one side is \<open>undefined\<close>.
\<close>

datatype Layout = Horizontal | Vertical

datatype Direction = Ltr | Rtl | DirHorizontal | DirVertical

datatype ScrollDirection = Forward | Backward

datatype ScrollToAlign = Auto | Smart | Center | Start | End

text \<open>The prop \<open>itemSize\<close> is a number or a function; a function is known by its identity only.\<close>

datatype ItemSize = SizeNumber int | SizeFunction nat

text \<open>
  The props the component reads. \<open>onItemsRendered\<close> and \<open>onScroll\<close> tell whether the host
  supplied a function (\<open>typeof ... === 'function'\<close>); what the host does in it is recorded
  as an event of the trace. \<open>width\<close> is the prop read through \<open>_widthPropAsNumber\<close>.
  The props that \<open>validateSharedProps\<close> rejects (an unknown \<open>direction\<close> or \<open>layout\<close>,
  a horizontal list whose \<open>width\<close> is not a number) have no value in these types.
\<close>

record Props =
  direction :: Direction
  initialScrollOffset :: "int option"
  itemCount :: int
  itemSize :: ItemSize
  layout :: Layout
  onItemsRendered :: bool
  onScroll :: bool
  overscanCount :: int
  useIsScrolling :: bool
  width :: int

record State =
  isScrolling :: bool
  scrollDirection :: ScrollDirection
  scrollOffset :: int
  normalizedScrollLeft :: "int option"
  scrollUpdateWasRequested :: bool

text \<open>
  The argument of \<open>createListComponent\<close>: the injected metrics functions. Each one receives
  the mutable \<open>instanceProps\<close> object and may change it, so each returns it.
  \<open>normalizeScrollLeft\<close> is imported from \<open>./domHelpers\<close>, whose code is not
  available; it is a parameter here, applied to \<open>direction\<close>, \<open>scrollLeft\<close>,
  \<open>clientWidth\<close> and \<open>scrollWidth\<close> in this order.
\<close>

record 'i Factory =
  getItemOffset :: "Props \<Rightarrow> int \<Rightarrow> 'i \<Rightarrow> int \<times> 'i"
  getEstimatedTotalSize :: "Props \<Rightarrow> 'i \<Rightarrow> int \<times> 'i"
  getItemSize :: "Props \<Rightarrow> int \<Rightarrow> 'i \<Rightarrow> int \<times> 'i"
  getOffsetForIndexAndAlignment :: "Props \<Rightarrow> int \<Rightarrow> ScrollToAlign \<Rightarrow> int option \<Rightarrow> 'i \<Rightarrow> int \<times> 'i"
  getStartIndexForOffset :: "Props \<Rightarrow> int option \<Rightarrow> 'i \<Rightarrow> int \<times> 'i"
  getStopIndexForStartIndex :: "Props \<Rightarrow> int \<Rightarrow> int option \<Rightarrow> 'i \<Rightarrow> int \<times> 'i"
  initInstanceProps :: "Props \<Rightarrow> 'i"
  shouldResetStyleCacheOnItemSizeChange :: bool
  normalizeScrollLeft :: "Direction \<Rightarrow> int \<Rightarrow> int \<Rightarrow> int \<Rightarrow> int"

text \<open>Everything the component does to its collaborators, in the order it happens.\<close>

datatype Event =
    GetItemOffset int
  | GetEstimatedTotalSize
  | GetItemSize int
  | GetOffsetForIndexAndAlignment int ScrollToAlign "int option"
  | GetStartIndexForOffset "int option"
  | GetStopIndexForStartIndex int "int option"
  | OnItemsRendered int int int int
  | OnScroll ScrollDirection int bool
  | RequestTimeout nat
  | CancelTimeout nat

text \<open>The outer element: the fields of the DOM node that the component reads or writes.\<close>

record OuterElement =
  clientWidth :: int
  scrollLeft :: int
  scrollTop :: int
  scrollWidth :: int

datatype Side = LeftSide | RightSide

text \<open>An item style; \<open>None\<close> for a height or width stands for \<open>'100%'\<close>.\<close>

record ItemStyle =
  styleSide :: Side
  styleSideValue :: int
  styleTop :: int
  styleHeight :: "int option"
  styleWidth :: "int option"

text \<open>The arguments \<open>_getItemStyleCache\<close> was last called with (it is memoized on them).\<close>

datatype StyleCacheArgs =
    ArgsFalse
  | ArgsProps ItemSize Layout Direction
  | ArgsReset

record Item =
  itemIndex :: int
  itemIsScrolling :: "bool option"
  itemStyle :: ItemStyle

record Rendered =
  items :: "Item list"
  estimatedTotalSize :: int

text \<open>
  A component instance with the world around it: its props and state, its instance
  fields, the last arguments of its three memoized functions, the timers that are
  scheduled and not yet fired or cancelled, and the trace.
\<close>

record 'i component =
  props :: Props
  state :: State
  instanceProps :: 'i
  outerRef :: "OuterElement option"
  resetIsScrollingTimeoutId :: "nat option"
  lastItemsRendered :: "(int \<times> int \<times> int \<times> int) option"
  lastOnScroll :: "(ScrollDirection \<times> int \<times> bool) option"
  styleCacheArgs :: "StyleCacheArgs option"
  itemStyleCache :: "int \<rightharpoonup> ItemStyle"
  pendingTimeouts :: "nat list"
  nextTimeoutId :: nat
  trace :: "Event list"

definition jsLess :: "int option \<Rightarrow> int option \<Rightarrow> bool" where
  "jsLess a b = (case a of None \<Rightarrow> False | Some x \<Rightarrow> (case b of None \<Rightarrow> False | Some y \<Rightarrow> x < y))"

definition isHorizontal :: "Props \<Rightarrow> bool" where
  "isHorizontal p = (layout p = Horizontal \<or> direction p = DirHorizontal)"

definition mappedDirectionForNormalization :: "Props \<Rightarrow> Direction" where
  "mappedDirectionForNormalization p =
     (if direction p = DirHorizontal \<or> direction p = DirVertical then Ltr else direction p)"

subsection \<open>Calls of the injected functions\<close>

definition callGetItemOffset :: "'i Factory \<Rightarrow> int \<Rightarrow> 'i component \<Rightarrow> int \<times> 'i component" where
  "callGetItemOffset f index c =
     (let (r, i) = getItemOffset f (props c) index (instanceProps c)
      in (r, c\<lparr>instanceProps := i, trace := trace c @ [GetItemOffset index]\<rparr>))"

definition callGetEstimatedTotalSize :: "'i Factory \<Rightarrow> 'i component \<Rightarrow> int \<times> 'i component" where
  "callGetEstimatedTotalSize f c =
     (let (r, i) = getEstimatedTotalSize f (props c) (instanceProps c)
      in (r, c\<lparr>instanceProps := i, trace := trace c @ [GetEstimatedTotalSize]\<rparr>))"

definition callGetItemSize :: "'i Factory \<Rightarrow> int \<Rightarrow> 'i component \<Rightarrow> int \<times> 'i component" where
  "callGetItemSize f index c =
     (let (r, i) = getItemSize f (props c) index (instanceProps c)
      in (r, c\<lparr>instanceProps := i, trace := trace c @ [GetItemSize index]\<rparr>))"

definition callGetOffsetForIndexAndAlignment ::
  "'i Factory \<Rightarrow> int \<Rightarrow> ScrollToAlign \<Rightarrow> int option \<Rightarrow> 'i component \<Rightarrow> int \<times> 'i component" where
  "callGetOffsetForIndexAndAlignment f index align off c =
     (let (r, i) = getOffsetForIndexAndAlignment f (props c) index align off (instanceProps c)
      in (r, c\<lparr>instanceProps := i,
               trace := trace c @ [GetOffsetForIndexAndAlignment index align off]\<rparr>))"

definition callGetStartIndexForOffset ::
  "'i Factory \<Rightarrow> int option \<Rightarrow> 'i component \<Rightarrow> int \<times> 'i component" where
  "callGetStartIndexForOffset f off c =
     (let (r, i) = getStartIndexForOffset f (props c) off (instanceProps c)
      in (r, c\<lparr>instanceProps := i, trace := trace c @ [GetStartIndexForOffset off]\<rparr>))"

definition callGetStopIndexForStartIndex ::
  "'i Factory \<Rightarrow> int \<Rightarrow> int option \<Rightarrow> 'i component \<Rightarrow> int \<times> 'i component" where
  "callGetStopIndexForStartIndex f startIndex off c =
     (let (r, i) = getStopIndexForStartIndex f (props c) startIndex off (instanceProps c)
      in (r, c\<lparr>instanceProps := i,
               trace := trace c @ [GetStopIndexForStartIndex startIndex off]\<rparr>))"

subsection \<open>The range to render\<close>

definition offsetToUse :: "Props \<Rightarrow> State \<Rightarrow> int option" where
  "offsetToUse p s =
     (if layout p = Vertical \<or> direction p = DirVertical
      then Some (scrollOffset s) else normalizedScrollLeft s)"

definition overscanBackward :: "Props \<Rightarrow> State \<Rightarrow> int" where
  "overscanBackward p s =
     (if \<not> isScrolling s \<or> scrollDirection s = Backward then max 1 (overscanCount p) else 1)"

definition overscanForward :: "Props \<Rightarrow> State \<Rightarrow> int" where
  "overscanForward p s =
     (if \<not> isScrolling s \<or> scrollDirection s = Forward then max 1 (overscanCount p) else 1)"

definition getRangeToRender ::
  "'i Factory \<Rightarrow> 'i component \<Rightarrow> (int \<times> int \<times> int \<times> int) \<times> 'i component" where
  "getRangeToRender f c =
     (if itemCount (props c) = 0 then ((0, 0, 0, 0), c)
      else
        let off = offsetToUse (props c) (state c);
            (startIndex, c1) = callGetStartIndexForOffset f off c;
            (stopIndex, c2) = callGetStopIndexForStartIndex f startIndex off c1
        in ((max 0 (startIndex - overscanBackward (props c) (state c)),
             max 0 (min (itemCount (props c) - 1) (stopIndex + overscanForward (props c) (state c))),
             startIndex,
             stopIndex), c2))"

subsection \<open>The two memoized change notifications\<close>

text \<open>
  \<open>memoizeOne\<close> keeps the arguments of its last call and calls the wrapped function only
  when the new arguments differ from them.
\<close>

definition callOnItemsRendered ::
  "int \<Rightarrow> int \<Rightarrow> int \<Rightarrow> int \<Rightarrow> 'i component \<Rightarrow> 'i component" where
  "callOnItemsRendered overscanStartIndex overscanStopIndex visibleStartIndex visibleStopIndex c =
     (let args = (overscanStartIndex, overscanStopIndex, visibleStartIndex, visibleStopIndex)
      in if lastItemsRendered c = Some args then c
         else c\<lparr>lastItemsRendered := Some args,
                 trace := trace c @ [OnItemsRendered overscanStartIndex overscanStopIndex
                                       visibleStartIndex visibleStopIndex]\<rparr>)"

definition callOnScroll :: "ScrollDirection \<Rightarrow> int \<Rightarrow> bool \<Rightarrow> 'i component \<Rightarrow> 'i component" where
  "callOnScroll sd off req c =
     (if lastOnScroll c = Some (sd, off, req) then c
      else c\<lparr>lastOnScroll := Some (sd, off, req), trace := trace c @ [OnScroll sd off req]\<rparr>)"

definition callPropsCallbacks :: "'i Factory \<Rightarrow> 'i component \<Rightarrow> 'i component" where
  "callPropsCallbacks f c =
     (let c1 = (if onItemsRendered (props c) then
                  (if itemCount (props c) > 0 then
                     (let ((overscanStartIndex, overscanStopIndex, visibleStartIndex, visibleStopIndex), c') =
                            getRangeToRender f c
                      in callOnItemsRendered overscanStartIndex overscanStopIndex
                           visibleStartIndex visibleStopIndex c')
                   else c)
                else c)
      in if onScroll (props c1) then
           callOnScroll (scrollDirection (state c1)) (scrollOffset (state c1))
             (scrollUpdateWasRequested (state c1)) c1
         else c1)"

subsection \<open>Item styles and render\<close>

definition getItemStyleCache :: "StyleCacheArgs \<Rightarrow> 'i component \<Rightarrow> 'i component" where
  "getItemStyleCache args c =
     (if styleCacheArgs c = Some args then c
      else c\<lparr>styleCacheArgs := Some args, itemStyleCache := Map.empty\<rparr>)"

definition getItemStyle :: "'i Factory \<Rightarrow> int \<Rightarrow> 'i component \<Rightarrow> ItemStyle \<times> 'i component" where
  "getItemStyle f index c =
     (let p = props c;
          c1 = getItemStyleCache
                 (if shouldResetStyleCacheOnItemSizeChange f
                  then ArgsProps (itemSize p) (layout p) (direction p) else ArgsFalse) c
      in case itemStyleCache c1 index of
           Some style \<Rightarrow> (style, c1)
         | None \<Rightarrow>
             (let (offset, c2) = callGetItemOffset f index c1;
                  (size, c3) = callGetItemSize f index c2;
                  style = \<lparr>styleSide = (if direction p = Rtl then RightSide else LeftSide),
                           styleSideValue = (if isHorizontal p then offset else 0),
                           styleTop = (if \<not> isHorizontal p then offset else 0),
                           styleHeight = (if \<not> isHorizontal p then Some size else None),
                           styleWidth = (if isHorizontal p then Some size else None)\<rparr>
              in (style, c3\<lparr>itemStyleCache := (itemStyleCache c3)(index \<mapsto> style)\<rparr>)))"

function renderItems ::
  "'i Factory \<Rightarrow> int \<Rightarrow> int \<Rightarrow> 'i component \<Rightarrow> Item list \<times> 'i component" where
  "renderItems f index stopIndex c =
     (if index \<le> stopIndex then
        (let (style, c1) = getItemStyle f index c;
             item = \<lparr>itemIndex = index,
                     itemIsScrolling = (if useIsScrolling (props c)
                                        then Some (isScrolling (state c)) else None),
                     itemStyle = style\<rparr>;
             (rest, c2) = renderItems f (index + 1) stopIndex c1
         in (item # rest, c2))
      else ([], c))"
  by pat_completeness auto
termination
  by (relation "measure (\<lambda>(f, index, stopIndex, c). nat (stopIndex + 1 - index))") auto

declare renderItems.simps [simp del]

definition render :: "'i Factory \<Rightarrow> 'i component \<Rightarrow> Rendered \<times> 'i component" where
  "render f c =
     (let ((startIndex, stopIndex, visibleStartIndex, visibleStopIndex), c1) = getRangeToRender f c;
          (its, c2) = (if itemCount (props c) > 0 then renderItems f startIndex stopIndex c1
                       else ([], c1));
          (total, c3) = callGetEstimatedTotalSize f c2
      in (\<lparr>items = its, estimatedTotalSize = total\<rparr>, c3))"

subsection \<open>Timers\<close>

text \<open>
  Modelled from the spec: the code of the timer collaborator \<open>./timer\<close> is not
  available. The spec gives it as \<open>schedule(callback, delayMs) -> timerHandle\<close> and
  \<open>cancel(timerHandle)\<close>. The only callback ever scheduled is \<open>_resetIsScrolling\<close>, after
  \<open>IS_SCROLLING_DEBOUNCE_INTERVAL\<close>, so a scheduled timer is its handle.
\<close>

definition requestTimeout :: "'i component \<Rightarrow> nat \<times> 'i component" where
  "requestTimeout c =
     (nextTimeoutId c,
      c\<lparr>pendingTimeouts := pendingTimeouts c @ [nextTimeoutId c],
        nextTimeoutId := Suc (nextTimeoutId c),
        trace := trace c @ [RequestTimeout (nextTimeoutId c)]\<rparr>)"

definition cancelTimeout :: "nat \<Rightarrow> 'i component \<Rightarrow> 'i component" where
  "cancelTimeout timeoutId c =
     c\<lparr>pendingTimeouts := removeAll timeoutId (pendingTimeouts c),
       trace := trace c @ [CancelTimeout timeoutId]\<rparr>"

definition resetIsScrollingDebounced :: "'i component \<Rightarrow> 'i component" where
  "resetIsScrollingDebounced c =
     (let c1 = (case resetIsScrollingTimeoutId c of
                  None \<Rightarrow> c
                | Some timeoutId \<Rightarrow> cancelTimeout timeoutId c);
          (timeoutId, c2) = requestTimeout c1
      in c2\<lparr>resetIsScrollingTimeoutId := Some timeoutId\<rparr>)"

definition componentWillUnmount :: "'i component \<Rightarrow> 'i component" where
  "componentWillUnmount c =
     (case resetIsScrollingTimeoutId c of
        None \<Rightarrow> c
      | Some timeoutId \<Rightarrow> cancelTimeout timeoutId c)"

subsection \<open>Lifecycle\<close>

definition componentDidMount :: "'i Factory \<Rightarrow> 'i component \<Rightarrow> 'i component" where
  "componentDidMount f c =
     (let c1 = (case initialScrollOffset (props c) of
                  None \<Rightarrow> c
                | Some off \<Rightarrow>
                    (case outerRef c of
                       None \<Rightarrow> c
                     | Some el \<Rightarrow>
                         if direction (props c) = DirHorizontal \<or> layout (props c) = Horizontal
                         then c\<lparr>outerRef := Some (el\<lparr>scrollLeft := off\<rparr>)\<rparr>
                         else c\<lparr>outerRef := Some (el\<lparr>scrollTop := off\<rparr>)\<rparr>))
      in callPropsCallbacks f c1)"

text \<open>
  \<open>componentDidUpdate\<close> may call \<open>setState({normalizedScrollLeft})\<close>. React applies a
  state change requested inside a lifecycle method after the current commit, so the
  requested value is returned beside the component.
\<close>

definition componentDidUpdate :: "'i Factory \<Rightarrow> 'i component \<Rightarrow> int option \<times> 'i component" where
  "componentDidUpdate f c =
     (let (requested, c1) =
            (if scrollUpdateWasRequested (state c) then
               (case outerRef c of
                  None \<Rightarrow> (None, c)
                | Some el \<Rightarrow>
                    if direction (props c) = DirHorizontal \<or> layout (props c) = Horizontal
                    then (Some (normalizeScrollLeft f (mappedDirectionForNormalization (props c))
                                  (scrollOffset (state c)) (width (props c)) (scrollWidth el)),
                          c\<lparr>outerRef := Some (el\<lparr>scrollLeft := scrollOffset (state c)\<rparr>)\<rparr>)
                    else (None, c\<lparr>outerRef := Some (el\<lparr>scrollTop := scrollOffset (state c)\<rparr>)\<rparr>))
             else (None, c))
      in (requested, callPropsCallbacks f c1))"

subsection \<open>setState\<close>

text \<open>
  \<open>setState(updater, callback)\<close> of a React \<open>PureComponent\<close>, run to completion: the
  updater is applied to the previous state; when it returns \<open>null\<close>, or a state whose
  fields all equal the previous ones, nothing is rendered and \<open>componentDidUpdate\<close> does
  not run; otherwise the component renders and \<open>componentDidUpdate\<close> runs. The callback
  runs in both cases, after \<open>componentDidUpdate\<close> when there is one. A state change that
  \<open>componentDidUpdate\<close> requested is applied after that, in a commit of its own.
\<close>

definition nestedSetState :: "'i Factory \<Rightarrow> int \<Rightarrow> 'i component \<Rightarrow> 'i component" where
  "nestedSetState f n c =
     (if normalizedScrollLeft (state c) = Some n then c
      else
        let (r, c1) = render f (c\<lparr>state := (state c)\<lparr>normalizedScrollLeft := Some n\<rparr>\<rparr>);
            (requested, c2) = componentDidUpdate f c1
        in c2)"

definition rerender :: "'i Factory \<Rightarrow> ('i component \<Rightarrow> 'i component) \<Rightarrow> 'i component \<Rightarrow> 'i component" where
  "rerender f callback c =
     (let (r, c1) = render f c;
          (requested, c2) = componentDidUpdate f c1;
          c3 = callback c2
      in case requested of
           None \<Rightarrow> c3
         | Some n \<Rightarrow> nestedSetState f n c3)"

definition setState ::
  "'i Factory \<Rightarrow> (State \<Rightarrow> State option) \<Rightarrow> ('i component \<Rightarrow> 'i component) \<Rightarrow>
   'i component \<Rightarrow> 'i component" where
  "setState f updater callback c =
     (case updater (state c) of
        None \<Rightarrow> callback c
      | Some s \<Rightarrow> if s = state c then callback c else rerender f callback (c\<lparr>state := s\<rparr>))"

subsection \<open>scrollTo and scrollToItem\<close>

definition scrollToTarget :: "'i Factory \<Rightarrow> int \<Rightarrow> 'i component \<Rightarrow> (int \<times> int option) \<times> 'i component" where
  "scrollToTarget f off c =
     (if isHorizontal (props c) then
        (let (scrollWidth, c1) = callGetEstimatedTotalSize f c;
             mappedDirection = mappedDirectionForNormalization (props c);
             w = width (props c);
             n = normalizeScrollLeft f mappedDirection off w scrollWidth
         in if n < 0 then ((normalizeScrollLeft f mappedDirection 0 w scrollWidth, Some 0), c1)
            else ((off, Some n), c1))
      else ((max 0 off, None), c))"

definition scrollToUpdater :: "Props \<Rightarrow> int \<Rightarrow> int option \<Rightarrow> State \<Rightarrow> State option" where
  "scrollToUpdater p off n prevState =
     (if scrollOffset prevState = off then None
      else
        let directionCalculation =
              (if isHorizontal p then jsLess (normalizedScrollLeft prevState) n
               else scrollOffset prevState < off)
        in Some (prevState\<lparr>scrollDirection := (if directionCalculation then Forward else Backward),
                           scrollOffset := off,
                           normalizedScrollLeft := n,
                           scrollUpdateWasRequested := True\<rparr>))"

definition scrollTo :: "'i Factory \<Rightarrow> int \<Rightarrow> 'i component \<Rightarrow> 'i component" where
  "scrollTo f off c =
     (let ((off', n), c1) = scrollToTarget f off c
      in setState f (scrollToUpdater (props c) off' n) resetIsScrollingDebounced c1)"

definition scrollToItemTarget ::
  "'i Factory \<Rightarrow> int \<Rightarrow> ScrollToAlign \<Rightarrow> 'i component \<Rightarrow>
   (int option \<times> int \<times> ScrollDirection) \<times> 'i component" where
  "scrollToItemTarget f index0 align c =
     (let p = props c;
          index = max 0 (min index0 (itemCount p - 1))
      in if isHorizontal p then
           (let (newNormalizedScrollOffset, c1) =
                  callGetOffsetForIndexAndAlignment f index align (normalizedScrollLeft (state c)) c;
                (startIndex, c2) = callGetStartIndexForOffset f (Some newNormalizedScrollOffset) c1;
                (stopIndex, c3) =
                  callGetStopIndexForStartIndex f startIndex (Some newNormalizedScrollOffset) c2;
                sd = (if jsLess (normalizedScrollLeft (state c)) (Some newNormalizedScrollOffset)
                      then Forward else Backward);
                overscanFwd = (if sd = Forward
                               then max 1 (if overscanCount p = 0 then 1 else overscanCount p)
                               else 1);
                (measured, c4) =
                  callGetItemOffset f (max 0 (min (itemCount p - 1) (stopIndex + overscanFwd))) c3;
                (newEstimatedTotalWidth, c5) = callGetEstimatedTotalSize f c4;
                browserOffset =
                  normalizeScrollLeft f (mappedDirectionForNormalization p) newNormalizedScrollOffset
                    (min (width p) newEstimatedTotalWidth) newEstimatedTotalWidth
            in ((Some newNormalizedScrollOffset, browserOffset, sd), c5))
         else
           (let (browserOffset, c1) =
                  callGetOffsetForIndexAndAlignment f index align (Some (scrollOffset (state c))) c;
                sd = (if scrollOffset (state c) < browserOffset then Forward else Backward)
            in ((None, browserOffset, sd), c1)))"

definition scrollToItemUpdater ::
  "int option \<Rightarrow> int \<Rightarrow> ScrollDirection \<Rightarrow> State \<Rightarrow> State option" where
  "scrollToItemUpdater newNormalizedScrollOffset browserOffset sd prevState =
     (if scrollOffset prevState = browserOffset then None
      else Some (prevState\<lparr>scrollDirection := sd,
                           scrollOffset := browserOffset,
                           normalizedScrollLeft := newNormalizedScrollOffset,
                           scrollUpdateWasRequested := True\<rparr>))"

definition scrollToItem :: "'i Factory \<Rightarrow> int \<Rightarrow> ScrollToAlign \<Rightarrow> 'i component \<Rightarrow> 'i component" where
  "scrollToItem f index align c =
     (let ((newNormalizedScrollOffset, browserOffset, sd), c1) = scrollToItemTarget f index align c
      in setState f (scrollToItemUpdater newNormalizedScrollOffset browserOffset sd)
           resetIsScrollingDebounced c1)"

subsection \<open>Scroll events and the is-scrolling reset\<close>

definition onScrollHorizontalUpdater :: "'i Factory \<Rightarrow> Props \<Rightarrow> OuterElement \<Rightarrow> State \<Rightarrow> State option" where
  "onScrollHorizontalUpdater f p el prevState =
     (if scrollOffset prevState = scrollLeft el then None
      else
        let n = normalizeScrollLeft f (mappedDirectionForNormalization p)
                  (scrollLeft el) (clientWidth el) (scrollWidth el)
        in Some \<lparr>isScrolling = True,
                 scrollDirection = (if jsLess (normalizedScrollLeft prevState) (Some n)
                                    then Forward else Backward),
                 scrollOffset = scrollLeft el,
                 normalizedScrollLeft = Some n,
                 scrollUpdateWasRequested = False\<rparr>)"

definition onScrollHorizontal :: "'i Factory \<Rightarrow> OuterElement \<Rightarrow> 'i component \<Rightarrow> 'i component" where
  "onScrollHorizontal f el c =
     setState f (onScrollHorizontalUpdater f (props c) el) resetIsScrollingDebounced c"

definition onScrollVerticalUpdater :: "OuterElement \<Rightarrow> State \<Rightarrow> State option" where
  "onScrollVerticalUpdater el prevState =
     (if scrollOffset prevState = scrollTop el then None
      else Some (prevState\<lparr>isScrolling := True,
                           scrollDirection := (if scrollOffset prevState < scrollTop el
                                               then Forward else Backward),
                           scrollOffset := scrollTop el,
                           scrollUpdateWasRequested := False\<rparr>))"

definition onScrollVertical :: "'i Factory \<Rightarrow> OuterElement \<Rightarrow> 'i component \<Rightarrow> 'i component" where
  "onScrollVertical f el c = setState f (onScrollVerticalUpdater el) resetIsScrollingDebounced c"

text \<open>
  A scroll event of the outer element: \<open>event.currentTarget\<close> is the element as the host
  left it, and \<open>render\<close> attached the handler of the layout.
\<close>

definition scrollEvent :: "'i Factory \<Rightarrow> OuterElement \<Rightarrow> 'i component \<Rightarrow> 'i component" where
  "scrollEvent f el c =
     (let c1 = c\<lparr>outerRef := Some el\<rparr>
      in if direction (props c) = DirHorizontal \<or> layout (props c) = Horizontal
         then onScrollHorizontal f el c1 else onScrollVertical f el c1)"

definition resetIsScrolling :: "'i Factory \<Rightarrow> 'i component \<Rightarrow> 'i component" where
  "resetIsScrolling f c =
     setState f (\<lambda>prevState. Some (prevState\<lparr>isScrolling := False\<rparr>))
       (getItemStyleCache ArgsReset) (c\<lparr>resetIsScrollingTimeoutId := None\<rparr>)"

text \<open>A scheduled timer runs its callback once; a handle that is not pending does nothing.\<close>

definition timeoutFires :: "'i Factory \<Rightarrow> nat \<Rightarrow> 'i component \<Rightarrow> 'i component" where
  "timeoutFires f timeoutId c =
     (if timeoutId \<in> set (pendingTimeouts c)
      then resetIsScrolling f (c\<lparr>pendingTimeouts := removeAll timeoutId (pendingTimeouts c)\<rparr>)
      else c)"

subsection \<open>Construction and mounting\<close>

definition newComponent ::
  "Props \<Rightarrow> 'i \<Rightarrow> int \<Rightarrow> int \<Rightarrow> Event list \<Rightarrow> 'i component" where
  "newComponent p inst off initialNormalizedScrollLeft evs =
     \<lparr>props = p,
      state = \<lparr>isScrolling = False,
               scrollDirection = Forward,
               scrollOffset = off,
               normalizedScrollLeft = Some initialNormalizedScrollLeft,
               scrollUpdateWasRequested = False\<rparr>,
      instanceProps = inst,
      outerRef = None,
      resetIsScrollingTimeoutId = None,
      lastItemsRendered = None,
      lastOnScroll = None,
      styleCacheArgs = None,
      itemStyleCache = Map.empty,
      pendingTimeouts = [],
      nextTimeoutId = 0,
      trace = evs\<rparr>"

definition constructor :: "'i Factory \<Rightarrow> Props \<Rightarrow> 'i component" where
  "constructor f p =
     (let inst = initInstanceProps f p
      in if layout p = Horizontal \<or> direction p = DirHorizontal then
           (let mappedDirection = mappedDirectionForNormalization p;
                w = width p;
                (estimatedWidth, inst1) = getEstimatedTotalSize f p inst;
                off = (case initialScrollOffset p of
                         Some x \<Rightarrow> x
                       | None \<Rightarrow> normalizeScrollLeft f mappedDirection 0
                                   (min w estimatedWidth) estimatedWidth)
            in newComponent p inst1 off
                 (normalizeScrollLeft f mappedDirection off w estimatedWidth)
                 [GetEstimatedTotalSize])
         else
           newComponent p inst (case initialScrollOffset p of Some x \<Rightarrow> x | None \<Rightarrow> 0) 0 [])"

text \<open>
  Mounting: React constructs the instance, renders it, hands the outer element to
  \<open>_outerRefSetter\<close> and calls \<open>componentDidMount\<close>.
\<close>

definition mount :: "'i Factory \<Rightarrow> Props \<Rightarrow> OuterElement \<Rightarrow> 'i component" where
  "mount f p el =
     (let (r, c1) = render f (constructor f p)
      in componentDidMount f (c1\<lparr>outerRef := Some el\<rparr>))"

subsection \<open>What can happen to a mounted component\<close>

datatype Action =
    ScrollTo int
  | ScrollToItem int ScrollToAlign
  | ScrollEvent OuterElement
  | TimeoutFires nat

fun act :: "'i Factory \<Rightarrow> Action \<Rightarrow> 'i component \<Rightarrow> 'i component" where
  "act f (ScrollTo off) c = scrollTo f off c"
| "act f (ScrollToItem index align) c = scrollToItem f index align c"
| "act f (ScrollEvent el) c = scrollEvent f el c"
| "act f (TimeoutFires timeoutId) c = timeoutFires f timeoutId c"

fun run :: "'i Factory \<Rightarrow> Action list \<Rightarrow> 'i component \<Rightarrow> 'i component" where
  "run f [] c = c"
| "run f (a # as) c = run f as (act f a c)"

subsection \<open>Notions used in the statements and proofs\<close>

fun isOnItemsRendered :: "Event \<Rightarrow> bool" where
  "isOnItemsRendered (OnItemsRendered a b v w) = True"
| "isOnItemsRendered e = False"

fun isHostCallback :: "Event \<Rightarrow> bool" where
  "isHostCallback (OnItemsRendered a b v w) = True"
| "isHostCallback (OnScroll sd off req) = True"
| "isHostCallback e = False"

text \<open>The state an updater leaves: \<open>null\<close> keeps the previous state.\<close>

definition stateAfter :: "(State \<Rightarrow> State option) \<Rightarrow> State \<Rightarrow> State" where
  "stateAfter updater s = (case updater s of None \<Rightarrow> s | Some s' \<Rightarrow> s')"

text \<open>
  \<open>continues c c'\<close>: \<open>c'\<close> has the props of \<open>c\<close> and a trace that extends the trace of
  \<open>c\<close>, by events other than \<open>onItemsRendered\<close> when the list is empty.
\<close>

definition continues :: "'i component \<Rightarrow> 'i component \<Rightarrow> bool" where
  "continues c c' =
     (props c' = props c \<and>
      (\<exists>evs. trace c' = trace c @ evs \<and>
             (itemCount (props c) = 0 \<longrightarrow> list_all (\<lambda>e. \<not> isOnItemsRendered e) evs)))"

text \<open>
  \<open>unchanged c c'\<close>: moreover the state and the timers are the same, and the outer
  element, if there is one, has the same \<open>scrollWidth\<close>.
\<close>

definition unchanged :: "'i component \<Rightarrow> 'i component \<Rightarrow> bool" where
  "unchanged c c' =
     (continues c c' \<and> state c' = state c \<and>
      map_option scrollWidth (outerRef c') = map_option scrollWidth (outerRef c) \<and>
      resetIsScrollingTimeoutId c' = resetIsScrollingTimeoutId c \<and>
      pendingTimeouts c' = pendingTimeouts c \<and> nextTimeoutId c' = nextTimeoutId c)"

definition upToNormalized :: "'i component \<Rightarrow> 'i component \<Rightarrow> bool" where
  "upToNormalized c c' =
     (continues c c' \<and>
      (state c')\<lparr>normalizedScrollLeft := None\<rparr> = (state c)\<lparr>normalizedScrollLeft := None\<rparr> \<and>
      resetIsScrollingTimeoutId c' = resetIsScrollingTimeoutId c \<and>
      pendingTimeouts c' = pendingTimeouts c \<and> nextTimeoutId c' = nextTimeoutId c)"

subsection \<open>A concrete list\<close>

text \<open>
  Modelled from the spec: the code of \<open>normalizeScrollLeft\<close> in \<open>./domHelpers\<close> is
  not available. The spec has it leave the offset of a left-to-right list unchanged
  and turn the offset of a right-to-left list into
  \<open>contentExtent - viewportExtent - scrollOffset\<close>, clamped to at least 0. It is used
  only to build concrete lists.
\<close>

definition specNormalizeScrollLeft :: "Direction \<Rightarrow> int \<Rightarrow> int \<Rightarrow> int \<Rightarrow> int" where
  "specNormalizeScrollLeft d x cw sw = (if d = Rtl then max 0 (sw - cw - x) else x)"

text \<open>
  A metrics strategy to run the component on: every item is 50 wide, an item not yet
  measured is estimated at 30, the viewport is \<open>width\<close> wide, and \<open>instanceProps\<close> is the
  last measured index.
\<close>

definition exampleFactory :: "int Factory" where
  "exampleFactory =
     \<lparr>getItemOffset = (\<lambda>p index i. (50 * index, max i index)),
      getEstimatedTotalSize = (\<lambda>p i. (50 * (i + 1) + 30 * (itemCount p - (i + 1)), i)),
      getItemSize = (\<lambda>p index i. (50, i)),
      getOffsetForIndexAndAlignment = (\<lambda>p index align off i. (50 * index, max i index)),
      getStartIndexForOffset =
        (\<lambda>p off i. case off of
                     None \<Rightarrow> (0, i)
                   | Some x \<Rightarrow> (max 0 (min (itemCount p - 1) (x div 50)),
                                max i (max 0 (min (itemCount p - 1) (x div 50))))),
      getStopIndexForStartIndex =
        (\<lambda>p a off i. case off of
                       None \<Rightarrow> (a, i)
                     | Some x \<Rightarrow> (max a (min (itemCount p - 1) ((x + width p - 1) div 50)),
                                  max i (max a (min (itemCount p - 1) ((x + width p - 1) div 50))))),
      initInstanceProps = (\<lambda>p. - 1),
      shouldResetStyleCacheOnItemSizeChange = False,
      normalizeScrollLeft = specNormalizeScrollLeft\<rparr>"

definition exampleProps :: Props where
  "exampleProps =
     \<lparr>direction = Ltr, initialScrollOffset = None, itemCount = 1000, itemSize = SizeNumber 50,
      layout = Horizontal, onItemsRendered = True, onScroll = True, overscanCount = 3,
      useIsScrolling = False, width = 300\<rparr>"

definition exampleElement :: OuterElement where
  "exampleElement = \<lparr>clientWidth = 300, scrollLeft = 0, scrollTop = 0, scrollWidth = 30000\<rparr>"

definition exampleVertical :: Props where
  "exampleVertical = exampleProps\<lparr>layout := Vertical\<rparr>"

definition exampleRtl :: Props where
  "exampleRtl = exampleProps\<lparr>direction := Rtl, itemCount := 100\<rparr>"

definition exampleMounted :: "int component" where
  "exampleMounted = mount exampleFactory exampleProps exampleElement"

definition exampleMountedVertical :: "int component" where
  "exampleMountedVertical = mount exampleFactory exampleVertical exampleElement"

text \<open>A vertical list mounted with a negative initial offset.\<close>

definition exampleOverscrolled :: "int component" where
  "exampleOverscrolled =
     mount exampleFactory (exampleVertical\<lparr>initialScrollOffset := Some (- 5)\<rparr>) exampleElement"

text \<open>A vertical list at rest at offset 0, after one call of \<open>scrollTo(0)\<close>.\<close>

definition exampleIdle :: "int component" where
  "exampleIdle = scrollTo exampleFactory 0 exampleMountedVertical"

text \<open>A horizontal list while the user scrolls forward to offset 2000.\<close>

definition exampleScrolling :: "int component" where
  "exampleScrolling =
     scrollEvent exampleFactory (exampleElement\<lparr>scrollLeft := 2000\<rparr>) exampleMounted"

text \<open>An empty list, mounted.\<close>

definition exampleEmpty :: "int component" where
  "exampleEmpty = mount exampleFactory (exampleProps\<lparr>itemCount := 0\<rparr>) exampleElement"

text \<open>A right-to-left list of 100 columns, none of them measured yet.\<close>

definition exampleRtlList :: "int component" where
  "exampleRtlList = constructor exampleFactory exampleRtl"

text \<open>At most one timer is pending, and it is the one whose handle the component holds.\<close>

definition timerInv :: "'i component \<Rightarrow> bool" where
  "timerInv c =
     (case pendingTimeouts c of
        [] \<Rightarrow> True
      | [timeoutId] \<Rightarrow> resetIsScrollingTimeoutId c = Some timeoutId
      | _ \<Rightarrow> False)"

text \<open>
  \<open>onScrollTold c\<close>: the tuple that \<open>_callOnScroll\<close> remembers was handed to the host.
  \<open>onScrollCurrent c\<close>: moreover it is the tuple of the current state.
\<close>

definition onScrollTold :: "'i component \<Rightarrow> bool" where
  "onScrollTold c =
     (case lastOnScroll c of
        None \<Rightarrow> True
      | Some (sd, off, req) \<Rightarrow> OnScroll sd off req \<in> set (trace c))"

definition onScrollCurrent :: "'i component \<Rightarrow> bool" where
  "onScrollCurrent c =
     (lastOnScroll c =
        Some (scrollDirection (state c), scrollOffset (state c),
              scrollUpdateWasRequested (state c)) \<and>
      OnScroll (scrollDirection (state c)) (scrollOffset (state c))
        (scrollUpdateWasRequested (state c)) \<in> set (trace c))"

fun isScrollEvent :: "Action \<Rightarrow> bool" where
  "isScrollEvent (ScrollEvent el) = True"
| "isScrollEvent a = False"

fun isTimeoutFires :: "Action \<Rightarrow> bool" where
  "isTimeoutFires (TimeoutFires timeoutId) = True"
| "isTimeoutFires a = False"

section \<open>Properties\<close>

subsection \<open>What rendering and the callbacks leave unchanged\<close>

lemma continues_refl: "continues c c"
  by (simp add: continues_def)

lemma continues_trans: "continues a b \<Longrightarrow> continues b c \<Longrightarrow> continues a c"
  by (auto simp: continues_def)

lemma continues_quiet:
  "props c' = props c \<Longrightarrow> trace c' = trace c @ evs \<Longrightarrow>
   list_all (\<lambda>e. \<not> isOnItemsRendered e) evs \<Longrightarrow> continues c c'"
  by (auto simp: continues_def)

lemma continues_same: "props c' = props c \<Longrightarrow> trace c' = trace c \<Longrightarrow> continues c c'"
  by (simp add: continues_def)

lemma continues_then_same:
  "continues c c' \<Longrightarrow> props c'' = props c' \<Longrightarrow> trace c'' = trace c' \<Longrightarrow> continues c c''"
  by (simp add: continues_def)

lemma unchanged_refl: "unchanged c c"
  by (simp add: unchanged_def continues_refl)

lemma unchanged_trans: "unchanged a b \<Longrightarrow> unchanged b c \<Longrightarrow> unchanged a c"
  by (auto simp: unchanged_def intro: continues_trans)

lemma unchanged_then_same:
  "unchanged c c' \<Longrightarrow> props c'' = props c' \<Longrightarrow> trace c'' = trace c' \<Longrightarrow> state c'' = state c' \<Longrightarrow>
   map_option scrollWidth (outerRef c'') = map_option scrollWidth (outerRef c') \<Longrightarrow>
   resetIsScrollingTimeoutId c'' = resetIsScrollingTimeoutId c' \<Longrightarrow>
   pendingTimeouts c'' = pendingTimeouts c' \<Longrightarrow> nextTimeoutId c'' = nextTimeoutId c' \<Longrightarrow>
   unchanged c c''"
  by (auto simp: unchanged_def intro: continues_then_same)

lemma unchanged_props: "unchanged c c' \<Longrightarrow> props c' = props c"
  by (simp add: unchanged_def continues_def)

lemma callGetItemOffset_unchanged: "unchanged c (snd (callGetItemOffset f i c))"
  by (auto simp: callGetItemOffset_def unchanged_def split: prod.splits
           intro: continues_quiet [where evs = "[GetItemOffset i]"])

lemma callGetEstimatedTotalSize_unchanged: "unchanged c (snd (callGetEstimatedTotalSize f c))"
  by (auto simp: callGetEstimatedTotalSize_def unchanged_def split: prod.splits
           intro: continues_quiet [where evs = "[GetEstimatedTotalSize]"])

lemma callGetItemSize_unchanged: "unchanged c (snd (callGetItemSize f i c))"
  by (auto simp: callGetItemSize_def unchanged_def split: prod.splits
           intro: continues_quiet [where evs = "[GetItemSize i]"])

lemma callGetOffsetForIndexAndAlignment_unchanged:
  "unchanged c (snd (callGetOffsetForIndexAndAlignment f i a off c))"
  by (auto simp: callGetOffsetForIndexAndAlignment_def unchanged_def split: prod.splits
           intro: continues_quiet [where evs = "[GetOffsetForIndexAndAlignment i a off]"])

lemma callGetStartIndexForOffset_unchanged: "unchanged c (snd (callGetStartIndexForOffset f off c))"
  by (auto simp: callGetStartIndexForOffset_def unchanged_def split: prod.splits
           intro: continues_quiet [where evs = "[GetStartIndexForOffset off]"])

lemma callGetStopIndexForStartIndex_unchanged:
  "unchanged c (snd (callGetStopIndexForStartIndex f a off c))"
  by (auto simp: callGetStopIndexForStartIndex_def unchanged_def split: prod.splits
           intro: continues_quiet [where evs = "[GetStopIndexForStartIndex a off]"])

lemma getRangeToRender_unchanged: "unchanged c (snd (getRangeToRender f c))"
proof (cases "itemCount (props c) = 0")
  case True
  then show ?thesis by (simp add: getRangeToRender_def unchanged_refl)
next
  case False
  obtain a c1 where s1: "callGetStartIndexForOffset f (offsetToUse (props c) (state c)) c = (a, c1)"
    by (cases "callGetStartIndexForOffset f (offsetToUse (props c) (state c)) c")
  obtain b c2 where s2: "callGetStopIndexForStartIndex f a (offsetToUse (props c) (state c)) c1 = (b, c2)"
    by (cases "callGetStopIndexForStartIndex f a (offsetToUse (props c) (state c)) c1")
  have "unchanged c c1" using callGetStartIndexForOffset_unchanged [of c f] s1
    by (metis snd_conv)
  moreover have "unchanged c1 c2" using callGetStopIndexForStartIndex_unchanged [of c1 f] s2
    by (metis snd_conv)
  ultimately have "unchanged c c2" by (rule unchanged_trans)
  then show ?thesis using False s1 s2 by (simp add: getRangeToRender_def Let_def)
qed

lemma callOnItemsRendered_unchanged:
  "itemCount (props c) \<noteq> 0 \<Longrightarrow> unchanged c (callOnItemsRendered a b v w c)"
  by (simp add: callOnItemsRendered_def unchanged_def continues_def Let_def)

lemma callOnScroll_unchanged: "unchanged c (callOnScroll a b v c)"
  by (auto simp: callOnScroll_def unchanged_def continues_refl
           intro: continues_quiet [where evs = "[OnScroll a b v]"])

lemma callPropsCallbacks_unchanged: "unchanged c (callPropsCallbacks f c)"
proof -
  let ?c1 = "(if onItemsRendered (props c) then
                  (if itemCount (props c) > 0 then
                     (let ((a, b, v, w), c') = getRangeToRender f c
                      in callOnItemsRendered a b v w c')
                   else c)
                else c)"
  have "unchanged c ?c1"
  proof (cases "onItemsRendered (props c) \<and> itemCount (props c) > 0")
    case False
    then show ?thesis by (auto simp: unchanged_refl)
  next
    case True
    obtain a b v w c' where g: "getRangeToRender f c = ((a, b, v, w), c')"
      by (cases "getRangeToRender f c") auto
    have u: "unchanged c c'" using getRangeToRender_unchanged [of c f] g by simp
    then have "itemCount (props c') \<noteq> 0" using True by (simp add: unchanged_props)
    then have "unchanged c' (callOnItemsRendered a b v w c')"
      by (rule callOnItemsRendered_unchanged)
    then show ?thesis using True g u by (auto intro: unchanged_trans)
  qed
  moreover have "callPropsCallbacks f c =
      (if onScroll (props ?c1) then
           callOnScroll (scrollDirection (state ?c1)) (scrollOffset (state ?c1))
             (scrollUpdateWasRequested (state ?c1)) ?c1
         else ?c1)"
    by (simp add: callPropsCallbacks_def Let_def)
  ultimately show ?thesis
    by (auto intro: unchanged_trans callOnScroll_unchanged)
qed

lemma getItemStyleCache_unchanged: "unchanged c (getItemStyleCache args c)"
  by (simp add: getItemStyleCache_def unchanged_def continues_def)

lemma getItemStyle_unchanged: "unchanged c (snd (getItemStyle f i c))"
proof -
  let ?c1 = "getItemStyleCache
                 (if shouldResetStyleCacheOnItemSizeChange f
                  then ArgsProps (itemSize (props c)) (layout (props c)) (direction (props c))
                  else ArgsFalse) c"
  have u1: "unchanged c ?c1" by (rule getItemStyleCache_unchanged)
  show ?thesis
  proof (cases "itemStyleCache ?c1 i")
    case (Some st)
    then show ?thesis using u1 by (simp add: getItemStyle_def Let_def)
  next
    case None
    obtain off c2 where s2: "callGetItemOffset f i ?c1 = (off, c2)"
      by (cases "callGetItemOffset f i ?c1")
    obtain sz c3 where s3: "callGetItemSize f i c2 = (sz, c3)"
      by (cases "callGetItemSize f i c2")
    have "unchanged ?c1 c2" using callGetItemOffset_unchanged [of ?c1 f i] s2 by simp
    moreover have "unchanged c2 c3" using callGetItemSize_unchanged [of c2 f i] s3 by simp
    ultimately have "unchanged c c3" using u1 by (blast intro: unchanged_trans)
    then have "unchanged c (c3\<lparr>itemStyleCache := (itemStyleCache c3)(i \<mapsto> st)\<rparr>)" for st
      by (rule unchanged_then_same) simp_all
    then show ?thesis using None s2 s3 by (simp add: getItemStyle_def Let_def)
  qed
qed

lemma renderItems_unchanged: "unchanged c (snd (renderItems f i stopIndex c))"
proof (induction f i stopIndex c rule: renderItems.induct)
  case (1 f index stopIndex c)
  show ?case
  proof (cases "index \<le> stopIndex")
    case False
    then show ?thesis by (simp add: renderItems.simps unchanged_refl)
  next
    case True
    obtain st c1 where s1: "getItemStyle f index c = (st, c1)"
      by (cases "getItemStyle f index c")
    obtain rest c2 where s2: "renderItems f (index + 1) stopIndex c1 = (rest, c2)"
      by (cases "renderItems f (index + 1) stopIndex c1")
    have "unchanged c c1" using getItemStyle_unchanged [of c f index] s1 by simp
    moreover have "unchanged c1 c2" using "1.IH" [OF True s1 [symmetric] refl] s2 by simp
    ultimately have "unchanged c c2" by (rule unchanged_trans)
    then show ?thesis using True s1 s2
      by (simp add: renderItems.simps [of f index stopIndex c] Let_def)
  qed
qed

lemma render_unchanged: "unchanged c (snd (render f c))"
proof -
  obtain r c1 where s1: "getRangeToRender f c = (r, c1)"
    by (cases "getRangeToRender f c")
  obtain a b v w where r: "r = (a, b, v, w)" by (cases r)
  let ?p2 = "if itemCount (props c) > 0 then renderItems f a b c1 else ([], c1)"
  obtain its c2 where s2: "?p2 = (its, c2)" by (cases ?p2)
  obtain t c3 where s3: "callGetEstimatedTotalSize f c2 = (t, c3)"
    by (cases "callGetEstimatedTotalSize f c2")
  have "unchanged c c1" using getRangeToRender_unchanged [of c f] s1 by simp
  moreover have "unchanged c1 c2"
    using renderItems_unchanged [of c1 f a b] s2 by (auto simp: unchanged_refl split: if_splits)
  moreover have "unchanged c2 c3" using callGetEstimatedTotalSize_unchanged [of c2 f] s3 by simp
  ultimately have "unchanged c c3" by (blast intro: unchanged_trans)
  moreover have "snd (render f c) = c3" using s1 r s2 s3 by (simp add: render_def)
  ultimately show ?thesis by simp
qed

lemma componentDidUpdate_unchanged: "unchanged c (snd (componentDidUpdate f c))"
proof -
  let ?q = "(if scrollUpdateWasRequested (state c) then
               (case outerRef c of
                  None \<Rightarrow> (None, c)
                | Some el \<Rightarrow>
                    if direction (props c) = DirHorizontal \<or> layout (props c) = Horizontal
                    then (Some (normalizeScrollLeft f (mappedDirectionForNormalization (props c))
                                  (scrollOffset (state c)) (width (props c)) (scrollWidth el)),
                          c\<lparr>outerRef := Some (el\<lparr>scrollLeft := scrollOffset (state c)\<rparr>)\<rparr>)
                    else (None, c\<lparr>outerRef := Some (el\<lparr>scrollTop := scrollOffset (state c)\<rparr>)\<rparr>))
             else (None, c))"
  obtain rq c1 where q: "?q = (rq, c1)" by (cases ?q)
  have "unchanged c c1" using q
    by (auto simp: unchanged_def continues_def split: if_splits option.splits)
  moreover have "unchanged c1 (callPropsCallbacks f c1)" by (rule callPropsCallbacks_unchanged)
  ultimately have "unchanged c (callPropsCallbacks f c1)" by (rule unchanged_trans)
  moreover have "snd (componentDidUpdate f c) = callPropsCallbacks f c1"
    using q by (simp add: componentDidUpdate_def)
  ultimately show ?thesis by simp
qed

lemma componentDidMount_unchanged: "unchanged c (componentDidMount f c)"
proof -
  let ?c1 = "(case initialScrollOffset (props c) of
                  None \<Rightarrow> c
                | Some off \<Rightarrow>
                    (case outerRef c of
                       None \<Rightarrow> c
                     | Some el \<Rightarrow>
                         if direction (props c) = DirHorizontal \<or> layout (props c) = Horizontal
                         then c\<lparr>outerRef := Some (el\<lparr>scrollLeft := off\<rparr>)\<rparr>
                         else c\<lparr>outerRef := Some (el\<lparr>scrollTop := off\<rparr>)\<rparr>))"
  have "unchanged c ?c1" by (auto simp: unchanged_def continues_def split: option.splits)
  then have "unchanged c (callPropsCallbacks f ?c1)"
    by (rule unchanged_trans) (rule callPropsCallbacks_unchanged)
  then show ?thesis by (simp add: componentDidMount_def Let_def)
qed





subsection \<open>What a state change leaves unchanged\<close>

lemma nestedSetState_upToNormalized: "upToNormalized c (nestedSetState f n c)"
proof (cases "normalizedScrollLeft (state c) = Some n")
  case True
  then show ?thesis by (simp add: nestedSetState_def upToNormalized_def continues_refl)
next
  case False
  let ?c0 = "c\<lparr>state := (state c)\<lparr>normalizedScrollLeft := Some n\<rparr>\<rparr>"
  have "unchanged ?c0 (snd (render f ?c0))" by (rule render_unchanged)
  moreover have "unchanged (snd (render f ?c0)) (snd (componentDidUpdate f (snd (render f ?c0))))"
    by (rule componentDidUpdate_unchanged)
  ultimately have "unchanged ?c0 (snd (componentDidUpdate f (snd (render f ?c0))))"
    by (rule unchanged_trans)
  moreover have "nestedSetState f n c = snd (componentDidUpdate f (snd (render f ?c0)))"
    using False by (simp add: nestedSetState_def split_beta)
  ultimately show ?thesis by (simp add: unchanged_def upToNormalized_def continues_def)
qed

lemma componentDidUpdate_not_requested:
  "\<not> scrollUpdateWasRequested (state c) \<Longrightarrow> fst (componentDidUpdate f c) = None"
  by (simp add: componentDidUpdate_def)

lemma rerender_cases:
  obtains c2 where "unchanged c c2"
    and "rerender f callback c = callback c2 \<or>
         (scrollUpdateWasRequested (state c) \<and>
          (\<exists>n. rerender f callback c = nestedSetState f n (callback c2)))"
proof -
  let ?c1 = "snd (render f c)"
  let ?c2 = "snd (componentDidUpdate f ?c1)"
  have u1: "unchanged c ?c1" by (rule render_unchanged)
  have u: "unchanged c ?c2"
    by (rule unchanged_trans [OF u1]) (rule componentDidUpdate_unchanged)
  have eq: "rerender f callback c =
      (case fst (componentDidUpdate f ?c1) of None \<Rightarrow> callback ?c2
       | Some n \<Rightarrow> nestedSetState f n (callback ?c2))"
    by (simp add: rerender_def Let_def split_beta)
  show ?thesis
  proof (cases "fst (componentDidUpdate f ?c1)")
    case None
    then show ?thesis using u eq that by simp
  next
    case (Some n)
    then have "scrollUpdateWasRequested (state ?c1)"
      using componentDidUpdate_not_requested [of ?c1 f] by auto
    then have "scrollUpdateWasRequested (state c)" using u1 by (simp add: unchanged_def)
    then show ?thesis using u eq Some that by auto
  qed
qed

text \<open>
  What \<open>setState\<close> leaves: the callback ran on a component \<open>c2\<close> that has the new state
  and is otherwise as before, and only \<open>normalizedScrollLeft\<close> may have changed since.
\<close>

lemma setState_frame:
  "\<exists>c2. unchanged (c\<lparr>state := stateAfter updater (state c)\<rparr>) c2 \<and>
        upToNormalized (callback c2) (setState f updater callback c) \<and>
        (\<not> scrollUpdateWasRequested (stateAfter updater (state c)) \<longrightarrow>
         setState f updater callback c = callback c2)"
proof -
  let ?s = "stateAfter updater (state c)"
  let ?c = "c\<lparr>state := ?s\<rparr>"
  let ?r = "setState f updater callback c"
  have r: "?r = (if ?s = state c then callback c else rerender f callback ?c)"
    by (simp add: setState_def stateAfter_def split: option.splits)
  have refl: "upToNormalized x x" for x :: "'a component"
    by (simp add: upToNormalized_def continues_refl)
  show ?thesis
  proof (cases "?s = state c")
    case True
    then have "unchanged ?c c" by (simp add: unchanged_def continues_def)
    moreover have "upToNormalized (callback c) ?r" using True r refl by simp
    moreover have "?r = callback c" using True r by simp
    ultimately show ?thesis by blast
  next
    case False
    then have rr: "?r = rerender f callback ?c" using r by simp
    obtain c2 where u: "unchanged ?c c2"
      and cases: "rerender f callback ?c = callback c2 \<or>
           (scrollUpdateWasRequested (state ?c) \<and>
            (\<exists>n. rerender f callback ?c = nestedSetState f n (callback c2)))"
      by (rule rerender_cases)
    have "upToNormalized (callback c2) ?r"
      using cases rr refl nestedSetState_upToNormalized by auto
    moreover have "\<not> scrollUpdateWasRequested ?s \<longrightarrow> ?r = callback c2"
      using cases rr by auto
    ultimately show ?thesis using u by blast
  qed
qed

lemma resetIsScrollingDebounced_continues: "continues c (resetIsScrollingDebounced c)"
proof (cases "resetIsScrollingTimeoutId c")
  case None
  then show ?thesis
    by (auto simp: resetIsScrollingDebounced_def requestTimeout_def
             intro: continues_quiet [where evs = "[RequestTimeout (nextTimeoutId c)]"])
next
  case (Some t)
  then show ?thesis
    by (auto simp: resetIsScrollingDebounced_def requestTimeout_def cancelTimeout_def
             intro: continues_quiet [where evs = "[CancelTimeout t, RequestTimeout (nextTimeoutId c)]"])
qed

lemma resetIsScrollingDebounced_state: "state (resetIsScrollingDebounced c) = state c"
  by (simp add: resetIsScrollingDebounced_def requestTimeout_def cancelTimeout_def
           split: option.splits)

lemma resetIsScrollingDebounced_id:
  "resetIsScrollingTimeoutId (resetIsScrollingDebounced c) = Some (nextTimeoutId c)"
  by (simp add: resetIsScrollingDebounced_def requestTimeout_def cancelTimeout_def
           split: option.splits)

lemma resetIsScrollingDebounced_next:
  "nextTimeoutId (resetIsScrollingDebounced c) = Suc (nextTimeoutId c)"
  by (simp add: resetIsScrollingDebounced_def requestTimeout_def cancelTimeout_def
           split: option.splits)

lemma resetIsScrollingDebounced_pending:
  "pendingTimeouts (resetIsScrollingDebounced c) =
     (case resetIsScrollingTimeoutId c of
        None \<Rightarrow> pendingTimeouts c
      | Some timeoutId \<Rightarrow> removeAll timeoutId (pendingTimeouts c)) @ [nextTimeoutId c]"
  by (simp add: resetIsScrollingDebounced_def requestTimeout_def cancelTimeout_def
           split: option.splits)

lemma setState_continues:
  assumes "\<And>x. continues x (callback x)"
  shows "continues c (setState f updater callback c)"
proof -
  obtain c2 where u: "unchanged (c\<lparr>state := stateAfter updater (state c)\<rparr>) c2"
    and n: "upToNormalized (callback c2) (setState f updater callback c)"
    using setState_frame [where c = c and updater = updater and callback = callback and f = f]
    by blast
  have "continues c c2" using u by (simp add: unchanged_def continues_def)
  moreover have "continues c2 (callback c2)" by (rule assms)
  moreover have "continues (callback c2) (setState f updater callback c)"
    using n by (simp add: upToNormalized_def)
  ultimately show ?thesis by (blast intro: continues_trans)
qed

lemma setState_state:
  assumes "\<And>x. state (callback x) = state x"
  shows "(state (setState f updater callback c))\<lparr>normalizedScrollLeft := None\<rparr> =
         (stateAfter updater (state c))\<lparr>normalizedScrollLeft := None\<rparr>"
    and "\<not> scrollUpdateWasRequested (stateAfter updater (state c)) \<Longrightarrow>
         state (setState f updater callback c) = stateAfter updater (state c)"
proof -
  obtain c2 where u: "unchanged (c\<lparr>state := stateAfter updater (state c)\<rparr>) c2"
    and n: "upToNormalized (callback c2) (setState f updater callback c)"
    and e: "\<not> scrollUpdateWasRequested (stateAfter updater (state c)) \<Longrightarrow>
            setState f updater callback c = callback c2"
    using setState_frame [where c = c and updater = updater and callback = callback and f = f]
    by blast
  have s2: "state (callback c2) = stateAfter updater (state c)"
    using u assms by (simp add: unchanged_def)
  show "(state (setState f updater callback c))\<lparr>normalizedScrollLeft := None\<rparr> =
         (stateAfter updater (state c))\<lparr>normalizedScrollLeft := None\<rparr>"
    using n s2 by (simp add: upToNormalized_def)
  show "\<not> scrollUpdateWasRequested (stateAfter updater (state c)) \<Longrightarrow>
         state (setState f updater callback c) = stateAfter updater (state c)"
    using e s2 by simp
qed

lemma setState_debounced_timers:
  fixes c :: "'i component" and f updater
  defines "r \<equiv> setState f updater resetIsScrollingDebounced c"
  shows "resetIsScrollingTimeoutId r = Some (nextTimeoutId c)"
    and "nextTimeoutId r = Suc (nextTimeoutId c)"
    and "pendingTimeouts r =
           (case resetIsScrollingTimeoutId c of
              None \<Rightarrow> pendingTimeouts c
            | Some timeoutId \<Rightarrow> removeAll timeoutId (pendingTimeouts c)) @ [nextTimeoutId c]"
proof -
  obtain c2 where u: "unchanged (c\<lparr>state := stateAfter updater (state c)\<rparr>) c2"
    and n: "upToNormalized (resetIsScrollingDebounced c2) r"
    unfolding r_def
    using setState_frame [where c = c and updater = updater
                            and callback = resetIsScrollingDebounced and f = f]
    by blast
  show "resetIsScrollingTimeoutId r = Some (nextTimeoutId c)"
    using u n by (simp add: upToNormalized_def unchanged_def resetIsScrollingDebounced_id)
  show "nextTimeoutId r = Suc (nextTimeoutId c)"
    using u n by (simp add: upToNormalized_def unchanged_def resetIsScrollingDebounced_next)
  show "pendingTimeouts r =
           (case resetIsScrollingTimeoutId c of
              None \<Rightarrow> pendingTimeouts c
            | Some timeoutId \<Rightarrow> removeAll timeoutId (pendingTimeouts c)) @ [nextTimeoutId c]"
    using u n
    by (simp add: upToNormalized_def unchanged_def resetIsScrollingDebounced_pending
             split: option.splits)
qed

lemma setState_quiet_timers:
  assumes "\<And>x. unchanged x (callback x)"
  shows "resetIsScrollingTimeoutId (setState f updater callback c) = resetIsScrollingTimeoutId c"
    and "nextTimeoutId (setState f updater callback c) = nextTimeoutId c"
    and "pendingTimeouts (setState f updater callback c) = pendingTimeouts c"
proof -
  obtain c2 where u: "unchanged (c\<lparr>state := stateAfter updater (state c)\<rparr>) c2"
    and n: "upToNormalized (callback c2) (setState f updater callback c)"
    using setState_frame [where c = c and updater = updater and callback = callback and f = f]
    by blast
  have "unchanged c2 (callback c2)" by (rule assms)
  then show "resetIsScrollingTimeoutId (setState f updater callback c) = resetIsScrollingTimeoutId c"
    and "nextTimeoutId (setState f updater callback c) = nextTimeoutId c"
    and "pendingTimeouts (setState f updater callback c) = pendingTimeouts c"
    using u n by (simp_all add: upToNormalized_def unchanged_def)
qed

lemma componentDidUpdate_request:
  "fst (componentDidUpdate f c) =
     (if scrollUpdateWasRequested (state c) \<and>
         (direction (props c) = DirHorizontal \<or> layout (props c) = Horizontal)
      then map_option
             (\<lambda>w. normalizeScrollLeft f (mappedDirectionForNormalization (props c))
                    (scrollOffset (state c)) (width (props c)) w)
             (map_option scrollWidth (outerRef c))
      else None)"
  by (simp add: componentDidUpdate_def split_beta split: option.splits)

text \<open>
  \<open>nestedSetState\<close> drops what \<open>componentDidUpdate\<close> requests in its commit. That
  request is the value just applied: the props, the committed offset and the
  \<open>scrollWidth\<close> of the outer element are those of the first commit, so React finds the
  state unchanged and stops.
\<close>

lemma nestedSetState_request_settled:
  assumes "fst (componentDidUpdate f c) = Some n"
    and "props c' = props c"
    and "scrollOffset (state c') = scrollOffset (state c)"
    and "scrollUpdateWasRequested (state c') = scrollUpdateWasRequested (state c)"
    and "map_option scrollWidth (outerRef c') = map_option scrollWidth (outerRef c)"
  shows "fst (componentDidUpdate f
                (snd (render f (c'\<lparr>state := (state c')\<lparr>normalizedScrollLeft := Some n\<rparr>\<rparr>)))) =
         Some n"
proof -
  let ?c0 = "c'\<lparr>state := (state c')\<lparr>normalizedScrollLeft := Some n\<rparr>\<rparr>"
  have u: "unchanged ?c0 (snd (render f ?c0))" by (rule render_unchanged)
  have "props (snd (render f ?c0)) = props c"
    using u assms(2) by (simp add: unchanged_props)
  moreover have "state (snd (render f ?c0)) = (state c')\<lparr>normalizedScrollLeft := Some n\<rparr>"
    using u by (simp add: unchanged_def)
  moreover have "map_option scrollWidth (outerRef (snd (render f ?c0))) =
                 map_option scrollWidth (outerRef c)"
    using u assms(5) by (simp add: unchanged_def)
  ultimately have "fst (componentDidUpdate f (snd (render f ?c0))) = fst (componentDidUpdate f c)"
    using assms(3,4) by (auto simp: componentDidUpdate_request)
  then show ?thesis using assms(1) by simp
qed

subsection \<open>The range to render\<close>

text \<open>
  C1: when the injected functions return a start index and a stop index with
  \<open>0 \<le> start \<le> stop \<le> itemCount - 1\<close>, the range that \<open>_getRangeToRender\<close> returns
  satisfies \<open>0 \<le> overscanStart \<le> visibleStart \<le> visibleStop \<le> overscanStop \<le> itemCount - 1\<close>,
  and for an empty list it is \<open>[0, 0, 0, 0]\<close>.
\<close>

theorem getRangeToRender_bounds:
  assumes "0 \<le> itemCount (props c)"
    and "getStartIndexForOffset f (props c) (offsetToUse (props c) (state c)) (instanceProps c) =
           (a, i1)"
    and "getStopIndexForStartIndex f (props c) a (offsetToUse (props c) (state c)) i1 = (b, i2)"
    and "itemCount (props c) \<noteq> 0 \<Longrightarrow> 0 \<le> a \<and> a \<le> b \<and> b \<le> itemCount (props c) - 1"
    and "fst (getRangeToRender f c) = (overscanStart, overscanStop, visibleStart, visibleStop)"
  shows "(if itemCount (props c) = 0
          then overscanStart = 0 \<and> overscanStop = 0 \<and> visibleStart = 0 \<and> visibleStop = 0
          else 0 \<le> overscanStart \<and> overscanStart \<le> visibleStart \<and> visibleStart \<le> visibleStop \<and>
               visibleStop \<le> overscanStop \<and> overscanStop \<le> itemCount (props c) - 1 \<and>
               visibleStart = a \<and> visibleStop = b)"
proof (cases "itemCount (props c) = 0")
  case True
  then show ?thesis using assms(5) by (simp add: getRangeToRender_def)
next
  case False
  have ob: "1 \<le> overscanBackward (props c) (state c)" by (simp add: overscanBackward_def)
  have ofw: "1 \<le> overscanForward (props c) (state c)" by (simp add: overscanForward_def)
  have r: "fst (getRangeToRender f c) =
      (max 0 (a - overscanBackward (props c) (state c)),
       max 0 (min (itemCount (props c) - 1) (b + overscanForward (props c) (state c))), a, b)"
    using False assms(2,3)
    by (simp add: getRangeToRender_def Let_def
                  callGetStartIndexForOffset_def callGetStopIndexForStartIndex_def)
  from assms(4) [OF False] have "0 \<le> a" "a \<le> b" "b \<le> itemCount (props c) - 1"
    by simp_all
  then show ?thesis using False ob ofw r assms(5) by auto
qed

lemma exampleFactory_simps:
  "getItemOffset exampleFactory p index i = (50 * index, max i index)"
  "getEstimatedTotalSize exampleFactory p i = (50 * (i + 1) + 30 * (itemCount p - (i + 1)), i)"
  "getItemSize exampleFactory p index i = (50, i)"
  "getOffsetForIndexAndAlignment exampleFactory p index align off i = (50 * index, max i index)"
  "getStartIndexForOffset exampleFactory p (Some x) i =
     (max 0 (min (itemCount p - 1) (x div 50)), max i (max 0 (min (itemCount p - 1) (x div 50))))"
  "getStopIndexForStartIndex exampleFactory p a (Some x) i =
     (max a (min (itemCount p - 1) ((x + width p - 1) div 50)),
      max i (max a (min (itemCount p - 1) ((x + width p - 1) div 50))))"
  "initInstanceProps exampleFactory p = - 1"
  "shouldResetStyleCacheOnItemSizeChange exampleFactory = False"
  "normalizeScrollLeft exampleFactory = specNormalizeScrollLeft"
  by (simp_all add: exampleFactory_def)

lemma constructor_props: "props (constructor f p) = p"
  by (simp add: constructor_def newComponent_def Let_def split_beta)

lemma constructor_instanceProps_example: "instanceProps (constructor exampleFactory p) = - 1"
  by (simp add: constructor_def newComponent_def Let_def split_beta exampleFactory_simps)

lemma constructor_state_horizontal:
  "layout p = Horizontal \<Longrightarrow> direction p = Ltr \<Longrightarrow>
   state (constructor exampleFactory p) =
     \<lparr>isScrolling = False, scrollDirection = Forward,
      scrollOffset = (case initialScrollOffset p of Some x \<Rightarrow> x | None \<Rightarrow> 0),
      normalizedScrollLeft = Some (case initialScrollOffset p of Some x \<Rightarrow> x | None \<Rightarrow> 0),
      scrollUpdateWasRequested = False\<rparr>"
  by (simp add: constructor_def newComponent_def Let_def split_beta exampleFactory_simps
                specNormalizeScrollLeft_def mappedDirectionForNormalization_def
           split: option.splits)

theorem getRangeToRender_bounds_witness:
  "fst (getRangeToRender exampleFactory
         (constructor exampleFactory (exampleProps\<lparr>initialScrollOffset := Some 2000\<rparr>))) =
     (37, 48, 40, 45) \<and>
   (0::int) \<le> 37 \<and> (37::int) \<le> 40 \<and> (40::int) \<le> 45 \<and> (45::int) \<le> 48 \<and> (48::int) \<le> 1000 - 1 \<and>
   fst (getRangeToRender exampleFactory
         (constructor exampleFactory (exampleProps\<lparr>itemCount := 0\<rparr>))) = (0, 0, 0, 0)"
proof -
  let ?p = "exampleProps\<lparr>initialScrollOffset := Some 2000\<rparr>"
  let ?c = "constructor exampleFactory ?p"
  let ?q = "exampleProps\<lparr>itemCount := 0\<rparr>"
  let ?d = "constructor exampleFactory ?q"
  have s: "offsetToUse (props ?c) (state ?c) = Some 2000"
    by (simp add: constructor_props constructor_state_horizontal offsetToUse_def exampleProps_def)
  have n: "0 \<le> itemCount (props ?c)" by (simp add: constructor_props exampleProps_def)
  have a: "getStartIndexForOffset exampleFactory (props ?c) (offsetToUse (props ?c) (state ?c))
             (instanceProps ?c) = (40, 40)"
    unfolding s
    by (simp add: constructor_props constructor_instanceProps_example exampleFactory_simps
                  exampleProps_def)
  have b: "getStopIndexForStartIndex exampleFactory (props ?c) 40
             (offsetToUse (props ?c) (state ?c)) 40 = (45, 45)"
    unfolding s by (simp add: constructor_props exampleFactory_simps exampleProps_def)
  have r: "fst (getRangeToRender exampleFactory ?c) = (37, 48, 40, 45)"
    using a b
    by (simp add: getRangeToRender_def callGetStartIndexForOffset_def Let_def
                  callGetStopIndexForStartIndex_def overscanBackward_def overscanForward_def
                  constructor_props constructor_state_horizontal exampleProps_def)
  have h: "itemCount (props ?c) \<noteq> 0 \<Longrightarrow>
           (0::int) \<le> 40 \<and> (40::int) \<le> 45 \<and> 45 \<le> itemCount (props ?c) - 1"
    by (simp add: constructor_props exampleProps_def)
  have n': "0 \<le> itemCount (props ?d)" by (simp add: constructor_props exampleProps_def)
  have z: "itemCount (props ?d) = 0" by (simp add: constructor_props exampleProps_def)
  have r': "fst (getRangeToRender exampleFactory ?d) = (0, 0, 0, 0)"
    using z by (simp add: getRangeToRender_def)
  obtain a' i1' where a': "getStartIndexForOffset exampleFactory (props ?d)
        (offsetToUse (props ?d) (state ?d)) (instanceProps ?d) = (a', i1')"
    by (cases "getStartIndexForOffset exampleFactory (props ?d)
        (offsetToUse (props ?d) (state ?d)) (instanceProps ?d)")
  obtain b' i2' where b': "getStopIndexForStartIndex exampleFactory (props ?d) a'
        (offsetToUse (props ?d) (state ?d)) i1' = (b', i2')"
    by (cases "getStopIndexForStartIndex exampleFactory (props ?d) a'
        (offsetToUse (props ?d) (state ?d)) i1'")
  have h': "itemCount (props ?d) \<noteq> 0 \<Longrightarrow> 0 \<le> a' \<and> a' \<le> b' \<and> b' \<le> itemCount (props ?d) - 1"
    using z by simp
  show ?thesis
    using getRangeToRender_bounds [OF n a b h r] getRangeToRender_bounds [OF n' a' b' h' r'] r r'
    by (simp add: constructor_props exampleProps_def)
qed

text \<open>
  C7: with 1000 items, \<open>overscanCount = 3\<close>, a list that is scrolling forward and injected
  functions that return the start index 40 and the stop index 45, the range is
  \<open>[39, 48, 40, 45]\<close>: one item of overscan behind, three ahead.
\<close>

theorem getRangeToRender_forward_scenario:
  fixes c :: "'i component" and f :: "'i Factory"
  defines "off \<equiv> offsetToUse (props c) (state c)"
  assumes "itemCount (props c) = 1000"
    and "overscanCount (props c) = 3"
    and "isScrolling (state c)"
    and "scrollDirection (state c) = Forward"
    and "fst (getStartIndexForOffset f (props c) off (instanceProps c)) = 40"
    and "fst (getStopIndexForStartIndex f (props c) 40 off
               (snd (getStartIndexForOffset f (props c) off (instanceProps c)))) = 45"
  shows "fst (getRangeToRender f c) = (39, 48, 40, 45) \<and>
         overscanBackward (props c) (state c) = 1 \<and>
         overscanForward (props c) (state c) = 3"
  using assms
  by (simp add: getRangeToRender_def Let_def split_beta overscanBackward_def overscanForward_def
        callGetStartIndexForOffset_def callGetStopIndexForStartIndex_def)

subsection \<open>Mounting, scrollTo and scrollToItem\<close>

lemma mount_props: "props (mount f p el) = p"
proof -
  have "unchanged (constructor f p) (snd (render f (constructor f p)))"
    by (rule render_unchanged)
  then have "props (snd (render f (constructor f p))) = p"
    by (simp add: unchanged_props constructor_def newComponent_def Let_def split_beta)
  moreover have "mount f p el =
      componentDidMount f ((snd (render f (constructor f p)))\<lparr>outerRef := Some el\<rparr>)"
    by (simp add: mount_def split_beta)
  ultimately show ?thesis
    using componentDidMount_unchanged
            [of "(snd (render f (constructor f p)))\<lparr>outerRef := Some el\<rparr>" f]
    by (simp add: unchanged_props)
qed

lemma mount_state: "state (mount f p el) = state (constructor f p)"
proof -
  have "unchanged (constructor f p) (snd (render f (constructor f p)))"
    by (rule render_unchanged)
  then have "state (snd (render f (constructor f p))) = state (constructor f p)"
    by (simp add: unchanged_def)
  moreover have "mount f p el =
      componentDidMount f ((snd (render f (constructor f p)))\<lparr>outerRef := Some el\<rparr>)"
    by (simp add: mount_def split_beta)
  ultimately show ?thesis
    using componentDidMount_unchanged
            [of "(snd (render f (constructor f p)))\<lparr>outerRef := Some el\<rparr>" f]
    by (simp add: unchanged_def)
qed



lemma mount_timers:
  "pendingTimeouts (mount f p el) = [] \<and> nextTimeoutId (mount f p el) = 0 \<and>
   resetIsScrollingTimeoutId (mount f p el) = None"
proof -
  have "unchanged (constructor f p) (snd (render f (constructor f p)))"
    by (rule render_unchanged)
  then have "pendingTimeouts (snd (render f (constructor f p))) = [] \<and>
             nextTimeoutId (snd (render f (constructor f p))) = 0 \<and>
             resetIsScrollingTimeoutId (snd (render f (constructor f p))) = None"
    by (simp add: unchanged_def constructor_def newComponent_def Let_def split_beta)
  moreover have "mount f p el =
      componentDidMount f ((snd (render f (constructor f p)))\<lparr>outerRef := Some el\<rparr>)"
    by (simp add: mount_def split_beta)
  ultimately show ?thesis
    using componentDidMount_unchanged
            [of "(snd (render f (constructor f p)))\<lparr>outerRef := Some el\<rparr>" f]
    by (simp add: unchanged_def)
qed


lemma setState_null: "updater (state c) = None \<Longrightarrow> setState f updater callback c = callback c"
  by (simp add: setState_def)

lemma scrollToTarget_unchanged: "unchanged c (snd (scrollToTarget f off c))"
  using callGetEstimatedTotalSize_unchanged [of c f]
  by (simp add: scrollToTarget_def Let_def split_beta unchanged_refl)

lemma scrollToItemTarget_horizontal:
  assumes "isHorizontal (props c)"
    and "callGetOffsetForIndexAndAlignment f (max 0 (min index (itemCount (props c) - 1))) align
           (normalizedScrollLeft (state c)) c = (n, c1)"
    and "callGetStartIndexForOffset f (Some n) c1 = (a, c2)"
    and "callGetStopIndexForStartIndex f a (Some n) c2 = (b, c3)"
    and "callGetItemOffset f
           (max 0 (min (itemCount (props c) - 1)
              (b + (if jsLess (normalizedScrollLeft (state c)) (Some n)
                    then max 1 (if overscanCount (props c) = 0 then 1 else overscanCount (props c))
                    else 1)))) c3 = (x, c4)"
    and "callGetEstimatedTotalSize f c4 = (W, c5)"
  shows "scrollToItemTarget f index align c =
           ((Some n,
             normalizeScrollLeft f (mappedDirectionForNormalization (props c)) n
               (min (width (props c)) W) W,
             if jsLess (normalizedScrollLeft (state c)) (Some n) then Forward else Backward), c5)"
  using assms
  by (cases "jsLess (normalizedScrollLeft (state c)) (Some n)";
      cases "overscanCount (props c) = 0";
      simp add: scrollToItemTarget_def Let_def)

lemma scrollToItemTarget_unchanged: "unchanged c (snd (scrollToItemTarget f index align c))"
proof (cases "isHorizontal (props c)")
  case False
  then show ?thesis
    using callGetOffsetForIndexAndAlignment_unchanged [of c f]
    by (simp add: scrollToItemTarget_def Let_def split_beta)
next
  case True
  obtain n c1 where r1: "callGetOffsetForIndexAndAlignment f
      (max 0 (min index (itemCount (props c) - 1))) align (normalizedScrollLeft (state c)) c = (n, c1)"
    by (cases "callGetOffsetForIndexAndAlignment f
      (max 0 (min index (itemCount (props c) - 1))) align (normalizedScrollLeft (state c)) c")
  obtain a c2 where r2: "callGetStartIndexForOffset f (Some n) c1 = (a, c2)"
    by (cases "callGetStartIndexForOffset f (Some n) c1")
  obtain b c3 where r3: "callGetStopIndexForStartIndex f a (Some n) c2 = (b, c3)"
    by (cases "callGetStopIndexForStartIndex f a (Some n) c2")
  let ?m = "max 0 (min (itemCount (props c) - 1)
              (b + (if jsLess (normalizedScrollLeft (state c)) (Some n)
                    then max 1 (if overscanCount (props c) = 0 then 1 else overscanCount (props c))
                    else 1)))"
  obtain x c4 where r4: "callGetItemOffset f ?m c3 = (x, c4)"
    by (cases "callGetItemOffset f ?m c3")
  obtain W c5 where r5: "callGetEstimatedTotalSize f c4 = (W, c5)"
    by (cases "callGetEstimatedTotalSize f c4")
  have "unchanged c c1" using callGetOffsetForIndexAndAlignment_unchanged [of c f] r1
    by (metis snd_conv)
  moreover have "unchanged c1 c2" using callGetStartIndexForOffset_unchanged [of c1 f] r2
    by (metis snd_conv)
  moreover have "unchanged c2 c3" using callGetStopIndexForStartIndex_unchanged [of c2 f] r3
    by (metis snd_conv)
  moreover have "unchanged c3 c4" using callGetItemOffset_unchanged [of c3 f] r4
    by (metis snd_conv)
  moreover have "unchanged c4 c5" using callGetEstimatedTotalSize_unchanged [of c4 f] r5
    by (metis snd_conv)
  ultimately have "unchanged c c5" by (blast intro: unchanged_trans)
  then show ?thesis using scrollToItemTarget_horizontal [OF True r1 r2 r3 r4 r5] by simp
qed

lemma scrollTo_unfold:
  "scrollTo f off c =
     setState f (scrollToUpdater (props c) (fst (fst (scrollToTarget f off c)))
                   (snd (fst (scrollToTarget f off c))))
       resetIsScrollingDebounced (snd (scrollToTarget f off c))"
  by (simp add: scrollTo_def split_beta)

lemma scrollToItem_unfold:
  "scrollToItem f index align c =
     setState f (scrollToItemUpdater (fst (fst (scrollToItemTarget f index align c)))
                   (fst (snd (fst (scrollToItemTarget f index align c))))
                   (snd (snd (fst (scrollToItemTarget f index align c)))))
       resetIsScrollingDebounced (snd (scrollToItemTarget f index align c))"
  by (simp add: scrollToItem_def split_beta)

lemma scrollEvent_unfold:
  "scrollEvent f el c =
     setState f (if direction (props c) = DirHorizontal \<or> layout (props c) = Horizontal
                 then onScrollHorizontalUpdater f (props c) el else onScrollVerticalUpdater el)
       resetIsScrollingDebounced (c\<lparr>outerRef := Some el\<rparr>)"
  by (simp add: scrollEvent_def onScrollHorizontal_def onScrollVertical_def Let_def)

lemma scrollTo_state:
  "(state (scrollTo f off c))\<lparr>normalizedScrollLeft := None\<rparr> =
   (stateAfter (scrollToUpdater (props c) (fst (fst (scrollToTarget f off c)))
                  (snd (fst (scrollToTarget f off c)))) (state c))\<lparr>normalizedScrollLeft := None\<rparr>"
  using setState_state(1) [where callback = resetIsScrollingDebounced and f = f
                             and c = "snd (scrollToTarget f off c)"]
        scrollToTarget_unchanged [of c f off]
  by (simp add: scrollTo_unfold resetIsScrollingDebounced_state unchanged_def)

lemma scrollToItem_state:
  "(state (scrollToItem f index align c))\<lparr>normalizedScrollLeft := None\<rparr> =
   (stateAfter (scrollToItemUpdater (fst (fst (scrollToItemTarget f index align c)))
                   (fst (snd (fst (scrollToItemTarget f index align c))))
                   (snd (snd (fst (scrollToItemTarget f index align c))))) (state c))
     \<lparr>normalizedScrollLeft := None\<rparr>"
  using setState_state(1) [where callback = resetIsScrollingDebounced and f = f
                             and c = "snd (scrollToItemTarget f index align c)"]
        scrollToItemTarget_unchanged [of c f index align]
  by (simp add: scrollToItem_unfold resetIsScrollingDebounced_state unchanged_def)

lemma erased_fields:
  "s\<lparr>normalizedScrollLeft := None\<rparr> = s'\<lparr>normalizedScrollLeft := None\<rparr> \<Longrightarrow>
   isScrolling s = isScrolling s' \<and> scrollOffset s = scrollOffset s' \<and>
   scrollDirection s = scrollDirection s' \<and>
   scrollUpdateWasRequested s = scrollUpdateWasRequested s'"
  by (cases s, cases s') simp

lemma scrollToUpdater_after:
  "isScrolling (stateAfter (scrollToUpdater p off n) s) = isScrolling s"
  "scrollOffset (stateAfter (scrollToUpdater p off n) s) = off"
  by (simp_all add: stateAfter_def scrollToUpdater_def Let_def)

lemma scrollToItemUpdater_after:
  "isScrolling (stateAfter (scrollToItemUpdater n off sd) s) = isScrolling s"
  "scrollOffset (stateAfter (scrollToItemUpdater n off sd) s) = off"
  by (simp_all add: stateAfter_def scrollToItemUpdater_def)

lemma scrollTo_isScrolling: "isScrolling (state (scrollTo f off c)) = isScrolling (state c)"
  using erased_fields [OF scrollTo_state [of f off c]] by (simp add: scrollToUpdater_after)

lemma scrollTo_scrollOffset:
  "scrollOffset (state (scrollTo f off c)) = fst (fst (scrollToTarget f off c))"
  using erased_fields [OF scrollTo_state [of f off c]] by (simp add: scrollToUpdater_after)

lemma scrollToItem_isScrolling:
  "isScrolling (state (scrollToItem f index align c)) = isScrolling (state c)"
  using erased_fields [OF scrollToItem_state [of f index align c]]
  by (simp add: scrollToItemUpdater_after)

lemma scrollToItem_scrollOffset:
  "scrollOffset (state (scrollToItem f index align c)) =
   fst (snd (fst (scrollToItemTarget f index align c)))"
  using erased_fields [OF scrollToItem_state [of f index align c]]
  by (simp add: scrollToItemUpdater_after)

subsection \<open>Change notifications and scroll events\<close>

text \<open>
  C8: both change notifications are memoized on their last arguments. Delivering the same
  tuple twice in a row calls the host at most once: the second delivery changes nothing.
\<close>

theorem change_callbacks_memoized:
  "callOnItemsRendered a b v w (callOnItemsRendered a b v w c) = callOnItemsRendered a b v w c \<and>
   (trace (callOnItemsRendered a b v w c) = trace c \<or>
    trace (callOnItemsRendered a b v w c) = trace c @ [OnItemsRendered a b v w]) \<and>
   callOnScroll sd off req (callOnScroll sd off req c) = callOnScroll sd off req c \<and>
   (trace (callOnScroll sd off req c) = trace c \<or>
    trace (callOnScroll sd off req c) = trace c @ [OnScroll sd off req])"
  by (simp add: callOnItemsRendered_def callOnScroll_def Let_def)


lemma scroll_handlers_state:
  assumes "\<And>s. updater s \<noteq> None \<Longrightarrow> \<not> scrollUpdateWasRequested (the (updater s))"
  shows "state (setState f updater resetIsScrollingDebounced c) = stateAfter updater (state c)"
proof (cases "updater (state c)")
  case None
  then show ?thesis
    by (simp add: setState_null resetIsScrollingDebounced_state stateAfter_def)
next
  case (Some s)
  then have "\<not> scrollUpdateWasRequested (stateAfter updater (state c))"
    using assms [of "state c"] by (simp add: stateAfter_def)
  then show ?thesis
    using setState_state(2) [where callback = resetIsScrollingDebounced and f = f
                               and updater = updater and c = c]
    by (simp add: resetIsScrollingDebounced_state)
qed

lemma onScrollHorizontal_state:
  "state (onScrollHorizontal f el c) =
     stateAfter (onScrollHorizontalUpdater f (props c) el) (state c)"
  unfolding onScrollHorizontal_def
  by (rule scroll_handlers_state) (simp add: onScrollHorizontalUpdater_def Let_def split: if_splits)

lemma onScrollVertical_state:
  "state (onScrollVertical f el c) = stateAfter (onScrollVerticalUpdater el) (state c)"
  unfolding onScrollVertical_def
  by (rule scroll_handlers_state) (simp add: onScrollVerticalUpdater_def split: if_splits)

text \<open>
  C3: a scroll event whose offset equals the committed \<open>scrollOffset\<close> leaves the state as
  it is. Any other scroll event commits \<open>isScrolling = true\<close>,
  \<open>scrollUpdateWasRequested = false\<close>, the offset of the event, and the direction
  \<open>forward\<close> exactly when the driving offset (\<open>normalizedScrollLeft\<close> of a horizontal
  list, \<open>scrollOffset\<close> of a vertical one) has grown.
\<close>

theorem scroll_event_transition:
  fixes c :: "'i component" and f :: "'i Factory" and el :: OuterElement
  defines "h \<equiv> state (onScrollHorizontal f el c)"
  defines "v \<equiv> state (onScrollVertical f el c)"
  shows "(scrollLeft el = scrollOffset (state c) \<longrightarrow> h = state c) \<and>
         (scrollLeft el \<noteq> scrollOffset (state c) \<longrightarrow>
            isScrolling h \<and> \<not> scrollUpdateWasRequested h \<and> scrollOffset h = scrollLeft el \<and>
            normalizedScrollLeft h =
              Some (normalizeScrollLeft f (mappedDirectionForNormalization (props c))
                      (scrollLeft el) (clientWidth el) (scrollWidth el)) \<and>
            scrollDirection h =
              (if jsLess (normalizedScrollLeft (state c)) (normalizedScrollLeft h)
               then Forward else Backward)) \<and>
         (scrollTop el = scrollOffset (state c) \<longrightarrow> v = state c) \<and>
         (scrollTop el \<noteq> scrollOffset (state c) \<longrightarrow>
            isScrolling v \<and> \<not> scrollUpdateWasRequested v \<and> scrollOffset v = scrollTop el \<and>
            normalizedScrollLeft v = normalizedScrollLeft (state c) \<and>
            scrollDirection v =
              (if scrollOffset (state c) < scrollOffset v then Forward else Backward))"
  by (simp add: h_def v_def onScrollHorizontal_state onScrollVertical_state stateAfter_def
                onScrollHorizontalUpdater_def onScrollVerticalUpdater_def Let_def)


lemma constructor_state_vertical:
  "layout p = Vertical \<Longrightarrow> direction p = Ltr \<Longrightarrow>
   state (constructor f p) =
     \<lparr>isScrolling = False, scrollDirection = Forward,
      scrollOffset = (case initialScrollOffset p of Some x \<Rightarrow> x | None \<Rightarrow> 0),
      normalizedScrollLeft = Some 0,
      scrollUpdateWasRequested = False\<rparr>"
  by (simp add: constructor_def newComponent_def Let_def)

lemma exampleMounted_props: "props exampleMounted = exampleProps"
  by (simp add: exampleMounted_def mount_props)

lemma exampleMounted_state:
  "state exampleMounted =
     \<lparr>isScrolling = False, scrollDirection = Forward, scrollOffset = 0,
      normalizedScrollLeft = Some 0, scrollUpdateWasRequested = False\<rparr>"
  by (simp add: exampleMounted_def mount_state constructor_state_horizontal exampleProps_def)

lemma exampleMountedVertical_props: "props exampleMountedVertical = exampleVertical"
  by (simp add: exampleMountedVertical_def mount_props)

lemma exampleMountedVertical_state:
  "state exampleMountedVertical =
     \<lparr>isScrolling = False, scrollDirection = Forward, scrollOffset = 0,
      normalizedScrollLeft = Some 0, scrollUpdateWasRequested = False\<rparr>"
  by (simp add: exampleMountedVertical_def mount_state constructor_state_vertical
                exampleVertical_def exampleProps_def)

lemma state_eqI:
  "isScrolling s = a \<Longrightarrow> scrollDirection s = b \<Longrightarrow> scrollOffset s = x \<Longrightarrow>
   normalizedScrollLeft s = n \<Longrightarrow> scrollUpdateWasRequested s = r \<Longrightarrow>
   s = \<lparr>isScrolling = a, scrollDirection = b, scrollOffset = x, normalizedScrollLeft = n,
        scrollUpdateWasRequested = r\<rparr>"
  by (cases s) simp

theorem scroll_event_transition_witness:
  "state (onScrollHorizontal exampleFactory exampleElement exampleMounted) = state exampleMounted \<and>
   state (onScrollHorizontal exampleFactory (exampleElement\<lparr>scrollLeft := 2000\<rparr>) exampleMounted) =
     \<lparr>isScrolling = True, scrollDirection = Forward, scrollOffset = 2000,
      normalizedScrollLeft = Some 2000, scrollUpdateWasRequested = False\<rparr> \<and>
   state (onScrollVertical exampleFactory exampleElement exampleMountedVertical) =
     state exampleMountedVertical \<and>
   state (onScrollVertical exampleFactory (exampleElement\<lparr>scrollTop := 120\<rparr>) exampleMountedVertical) =
     \<lparr>isScrolling = True, scrollDirection = Forward, scrollOffset = 120,
      normalizedScrollLeft = Some 0, scrollUpdateWasRequested = False\<rparr>"
proof -
  have e: "scrollLeft exampleElement = 0" "scrollTop exampleElement = 0"
    "clientWidth exampleElement = 300" "scrollWidth exampleElement = 30000"
    by (simp_all add: exampleElement_def)
  have m: "mappedDirectionForNormalization exampleProps = Ltr"
    by (simp add: mappedDirectionForNormalization_def exampleProps_def)
  have 1: "state (onScrollHorizontal exampleFactory exampleElement exampleMounted) =
           state exampleMounted"
    using scroll_event_transition [of exampleElement exampleMounted exampleFactory]
    by (simp add: e exampleMounted_state)
  have 2: "state (onScrollHorizontal exampleFactory (exampleElement\<lparr>scrollLeft := 2000\<rparr>)
                    exampleMounted) =
     \<lparr>isScrolling = True, scrollDirection = Forward, scrollOffset = 2000,
      normalizedScrollLeft = Some 2000, scrollUpdateWasRequested = False\<rparr>"
    using scroll_event_transition
            [of "exampleElement\<lparr>scrollLeft := 2000\<rparr>" exampleMounted exampleFactory]
    by (intro state_eqI)
       (simp_all add: e m exampleMounted_state exampleMounted_props exampleFactory_simps
                      specNormalizeScrollLeft_def jsLess_def)
  have 3: "state (onScrollVertical exampleFactory exampleElement exampleMountedVertical) =
           state exampleMountedVertical"
    using scroll_event_transition [of exampleElement exampleMountedVertical exampleFactory]
    by (simp add: e exampleMountedVertical_state)
  have 4: "state (onScrollVertical exampleFactory (exampleElement\<lparr>scrollTop := 120\<rparr>)
                    exampleMountedVertical) =
     \<lparr>isScrolling = True, scrollDirection = Forward, scrollOffset = 120,
      normalizedScrollLeft = Some 0, scrollUpdateWasRequested = False\<rparr>"
    using scroll_event_transition
            [of "exampleElement\<lparr>scrollTop := 120\<rparr>" exampleMountedVertical exampleFactory]
    by (intro state_eqI) (simp_all add: e exampleMountedVertical_state)
  show ?thesis using 1 2 3 4 by simp
qed

lemma scrollEvent_continues: "continues c (scrollEvent f el c)"
proof -
  have "continues (c\<lparr>outerRef := Some el\<rparr>) (scrollEvent f el c)"
    unfolding scrollEvent_unfold
    by (rule setState_continues) (rule resetIsScrollingDebounced_continues)
  then show ?thesis by (simp add: continues_def)
qed

lemma scrollEvent_props: "props (scrollEvent f el c) = props c"
  using scrollEvent_continues [of c f el] by (simp add: continues_def)

lemma exampleScrolling_state:
  "state exampleScrolling =
     \<lparr>isScrolling = True, scrollDirection = Forward, scrollOffset = 2000,
      normalizedScrollLeft = Some 2000, scrollUpdateWasRequested = False\<rparr>"
proof -
  have "state exampleScrolling =
      state (onScrollHorizontal exampleFactory (exampleElement\<lparr>scrollLeft := 2000\<rparr>)
               (exampleMounted\<lparr>outerRef := Some (exampleElement\<lparr>scrollLeft := 2000\<rparr>)\<rparr>))"
    by (simp add: exampleScrolling_def scrollEvent_def exampleMounted_props exampleProps_def)
  then show ?thesis
    by (simp add: onScrollHorizontal_state exampleMounted_state exampleMounted_props
          stateAfter_def onScrollHorizontalUpdater_def exampleElement_def exampleFactory_simps
          specNormalizeScrollLeft_def jsLess_def mappedDirectionForNormalization_def
          exampleProps_def)
qed

theorem getRangeToRender_forward_scenario_witness:
  "fst (getRangeToRender exampleFactory exampleScrolling) = (39, 48, 40, 45) \<and>
   overscanBackward (props exampleScrolling) (state exampleScrolling) = 1 \<and>
   overscanForward (props exampleScrolling) (state exampleScrolling) = 3"
proof -
  have p: "props exampleScrolling = exampleProps"
    by (simp add: exampleScrolling_def scrollEvent_props exampleMounted_props)
  have off: "offsetToUse (props exampleScrolling) (state exampleScrolling) = Some 2000"
    by (simp add: p exampleScrolling_state offsetToUse_def exampleProps_def)
  have 1: "itemCount (props exampleScrolling) = 1000" by (simp add: p exampleProps_def)
  have 2: "overscanCount (props exampleScrolling) = 3" by (simp add: p exampleProps_def)
  have 3: "isScrolling (state exampleScrolling)" by (simp add: exampleScrolling_state)
  have 4: "scrollDirection (state exampleScrolling) = Forward"
    by (simp add: exampleScrolling_state)
  have 5: "fst (getStartIndexForOffset exampleFactory (props exampleScrolling)
                  (offsetToUse (props exampleScrolling) (state exampleScrolling))
                  (instanceProps exampleScrolling)) = 40"
    unfolding off by (simp add: exampleFactory_simps p exampleProps_def)
  have 6: "fst (getStopIndexForStartIndex exampleFactory (props exampleScrolling) 40
                  (offsetToUse (props exampleScrolling) (state exampleScrolling))
                  (snd (getStartIndexForOffset exampleFactory (props exampleScrolling)
                          (offsetToUse (props exampleScrolling) (state exampleScrolling))
                          (instanceProps exampleScrolling)))) = 45"
    unfolding off by (simp add: exampleFactory_simps p exampleProps_def)
  show ?thesis by (rule getRangeToRender_forward_scenario [OF 1 2 3 4 5 6])
qed

subsection \<open>The offset that scrollTo commits\<close>

lemma scrollToTarget_vertical:
  "\<not> isHorizontal (props c) \<Longrightarrow> scrollToTarget f off c = ((max 0 off, None), c)"
  by (simp add: scrollToTarget_def)

lemma scrollToTarget_horizontal:
  assumes "isHorizontal (props c)"
  shows "scrollToTarget f off c =
     ((let W = fst (getEstimatedTotalSize f (props c) (instanceProps c));
           n = normalizeScrollLeft f (mappedDirectionForNormalization (props c)) off
                 (width (props c)) W
       in if n < 0
          then (normalizeScrollLeft f (mappedDirectionForNormalization (props c)) 0
                  (width (props c)) W, Some 0)
          else (off, Some n)),
      snd (callGetEstimatedTotalSize f c))"
  using assms
  by (simp add: scrollToTarget_def callGetEstimatedTotalSize_def Let_def split_beta)

text \<open>
  C4: \<open>scrollTo(offset)\<close> commits \<open>max(0, offset)\<close> on a vertical list. On a horizontal
  list whose normalized offset would be negative, the normalized value becomes 0 and the
  committed offset is \<open>normalizeScrollLeft\<close> of 0 for the estimated total size and the
  width of the list.
\<close>

theorem scrollTo_committed_offset:
  fixes c :: "'i component" and f :: "'i Factory"
  defines "W \<equiv> fst (getEstimatedTotalSize f (props c) (instanceProps c))"
  defines "d \<equiv> mappedDirectionForNormalization (props c)"
  shows "(\<not> isHorizontal (props c) \<longrightarrow>
            scrollOffset (state (scrollTo f off c)) = max 0 off) \<and>
         (isHorizontal (props c) \<and> normalizeScrollLeft f d off (width (props c)) W < 0 \<longrightarrow>
            fst (scrollToTarget f off c) =
              (normalizeScrollLeft f d 0 (width (props c)) W, Some 0) \<and>
            scrollOffset (state (scrollTo f off c)) =
              normalizeScrollLeft f d 0 (width (props c)) W)"
  by (simp add: scrollTo_scrollOffset scrollToTarget_vertical scrollToTarget_horizontal
                W_def d_def Let_def)

theorem scrollTo_committed_offset_witness:
  "scrollOffset (state (scrollTo exampleFactory (- 7) exampleMountedVertical)) = 0 \<and>
   scrollOffset (state (scrollTo exampleFactory 120 exampleMountedVertical)) = 120 \<and>
   normalizeScrollLeft exampleFactory Ltr (- 7) 300 
     (fst (getEstimatedTotalSize exampleFactory exampleProps (instanceProps exampleMounted))) < 0 \<and>
   fst (scrollToTarget exampleFactory (- 7) exampleMounted) = (0, Some 0) \<and>
   scrollOffset (state (scrollTo exampleFactory (- 7) exampleMounted)) = 0"
proof -
  have v: "\<not> isHorizontal (props exampleMountedVertical)"
    by (simp add: exampleMountedVertical_props isHorizontal_def exampleVertical_def
                  exampleProps_def)
  have h: "isHorizontal (props exampleMounted)"
    by (simp add: exampleMounted_props isHorizontal_def exampleProps_def)
  have d: "mappedDirectionForNormalization (props exampleMounted) = Ltr"
    by (simp add: exampleMounted_props mappedDirectionForNormalization_def exampleProps_def)
  have w: "width (props exampleMounted) = 300"
    by (simp add: exampleMounted_props exampleProps_def)
  have n: "normalizeScrollLeft exampleFactory Ltr x cw sw = x" for x cw sw
    by (simp add: exampleFactory_simps specNormalizeScrollLeft_def)
  show ?thesis
    using scrollTo_committed_offset [of exampleMountedVertical exampleFactory "- 7"]
          scrollTo_committed_offset [of exampleMountedVertical exampleFactory 120]
          scrollTo_committed_offset [of exampleMounted exampleFactory "- 7"]
          v h
    by (simp add: d w n)
qed

subsection \<open>Who changes isScrolling\<close>

lemma resetIsScrolling_isScrolling: "\<not> isScrolling (state (resetIsScrolling f c))"
proof -
  have "(state (resetIsScrolling f c))\<lparr>normalizedScrollLeft := None\<rparr> =
        (stateAfter (\<lambda>prevState. Some (prevState\<lparr>isScrolling := False\<rparr>))
           (state (c\<lparr>resetIsScrollingTimeoutId := None\<rparr>)))\<lparr>normalizedScrollLeft := None\<rparr>"
    unfolding resetIsScrolling_def
    by (rule setState_state(1)) (simp add: getItemStyleCache_def)
  from erased_fields [OF this] show ?thesis by (simp add: stateAfter_def)
qed

lemma timeoutFires_isScrolling:
  "isScrolling (state (timeoutFires f t c)) \<Longrightarrow> isScrolling (state c)"
  using resetIsScrolling_isScrolling [of f]
  by (auto simp: timeoutFires_def split: if_splits)

lemma scrollEvent_state:
  "state (scrollEvent f el c) =
     stateAfter (if direction (props c) = DirHorizontal \<or> layout (props c) = Horizontal
                 then onScrollHorizontalUpdater f (props c) el else onScrollVerticalUpdater el)
       (state c)"
  using onScrollHorizontal_state [of f el "c\<lparr>outerRef := Some el\<rparr>"]
        onScrollVertical_state [of f el "c\<lparr>outerRef := Some el\<rparr>"]
  by (simp add: scrollEvent_def Let_def)

lemma scrollEvent_isScrolling:
  "isScrolling (state c) \<Longrightarrow> isScrolling (state (scrollEvent f el c))"
  by (simp add: scrollEvent_state stateAfter_def onScrollHorizontalUpdater_def
                onScrollVerticalUpdater_def Let_def)

text \<open>
  C9: neither \<open>scrollTo\<close> nor \<open>scrollToItem\<close> changes \<open>isScrolling\<close>. Of all that can
  happen to a mounted list, only a scroll event turns it on and only the expiry of the
  debounce timer turns it off.
\<close>

theorem programmatic_scroll_keeps_isScrolling:
  "isScrolling (state (scrollTo f off c)) = isScrolling (state c) \<and>
   isScrolling (state (scrollToItem f index align c)) = isScrolling (state c) \<and>
   (isScrolling (state (act f a c)) \<and> \<not> isScrolling (state c) \<longrightarrow> isScrollEvent a) \<and>
   (\<not> isScrolling (state (act f a c)) \<and> isScrolling (state c) \<longrightarrow> isTimeoutFires a)"
proof -
  have "isScrolling (state (act f a c)) \<and> \<not> isScrolling (state c) \<longrightarrow> isScrollEvent a"
    using timeoutFires_isScrolling [of f _ c]
    by (cases a) (auto simp: scrollTo_isScrolling scrollToItem_isScrolling)
  moreover have "\<not> isScrolling (state (act f a c)) \<and> isScrolling (state c) \<longrightarrow> isTimeoutFires a"
    using scrollEvent_isScrolling [of c f]
    by (cases a) (auto simp: scrollTo_isScrolling scrollToItem_isScrolling)
  ultimately show ?thesis by (simp add: scrollTo_isScrolling scrollToItem_isScrolling)
qed

lemma exampleScrolling_pending: "pendingTimeouts exampleScrolling = [0]"
proof -
  let ?c = "exampleMounted\<lparr>outerRef := Some (exampleElement\<lparr>scrollLeft := 2000\<rparr>)\<rparr>"
  have "pendingTimeouts ?c = [] \<and> nextTimeoutId ?c = 0 \<and> resetIsScrollingTimeoutId ?c = None"
    using mount_timers [of exampleFactory exampleProps exampleElement]
    by (simp add: exampleMounted_def)
  then show ?thesis
    using setState_debounced_timers(3) [where c = ?c and f = exampleFactory]
    by (simp add: exampleScrolling_def scrollEvent_unfold)
qed

theorem programmatic_scroll_keeps_isScrolling_witness:
  "isScrolling (state (scrollTo exampleFactory 120 exampleScrolling)) \<and>
   isScrolling (state (scrollToItem exampleFactory 7 Start exampleScrolling)) \<and>
   \<not> isScrolling (state exampleMounted) \<and>
   isScrolling (state (act exampleFactory (ScrollEvent (exampleElement\<lparr>scrollLeft := 2000\<rparr>))
                         exampleMounted)) \<and>
   isScrollEvent (ScrollEvent (exampleElement\<lparr>scrollLeft := 2000\<rparr>)) \<and>
   isScrolling (state exampleScrolling) \<and>
   \<not> isScrolling (state (act exampleFactory (TimeoutFires 0) exampleScrolling)) \<and>
   isTimeoutFires (TimeoutFires 0)"
proof -
  have 1: "isScrolling (state exampleScrolling)" by (simp add: exampleScrolling_state)
  have 2: "\<not> isScrolling (state exampleMounted)" by (simp add: exampleMounted_state)
  have 3: "isScrolling (state (act exampleFactory
              (ScrollEvent (exampleElement\<lparr>scrollLeft := 2000\<rparr>)) exampleMounted))"
    using 1 by (simp add: exampleScrolling_def)
  have 4: "\<not> isScrolling (state (act exampleFactory (TimeoutFires 0) exampleScrolling))"
    by (simp add: timeoutFires_def exampleScrolling_pending resetIsScrolling_isScrolling)
  show ?thesis
    using programmatic_scroll_keeps_isScrolling
            [of exampleFactory 120 exampleScrolling 7 Start
                "ScrollEvent (exampleElement\<lparr>scrollLeft := 2000\<rparr>)"]
          programmatic_scroll_keeps_isScrolling
            [of exampleFactory 120 exampleMounted 7 Start
                "ScrollEvent (exampleElement\<lparr>scrollLeft := 2000\<rparr>)"]
          programmatic_scroll_keeps_isScrolling
            [of exampleFactory 120 exampleScrolling 7 Start "TimeoutFires 0"]
          1 2 3 4
    by simp
qed

subsection \<open>scrollTo with the committed offset\<close>

lemma scrollTo_noop:
  assumes "fst (fst (scrollToTarget f off c)) = scrollOffset (state c)"
  shows "scrollTo f off c = resetIsScrollingDebounced (snd (scrollToTarget f off c))"
proof -
  have "state (snd (scrollToTarget f off c)) = state c"
    using scrollToTarget_unchanged [of c f off] by (simp add: unchanged_def)
  then have "scrollToUpdater (props c) (fst (fst (scrollToTarget f off c)))
               (snd (fst (scrollToTarget f off c))) (state (snd (scrollToTarget f off c))) = None"
    using assms by (simp add: scrollToUpdater_def)
  then show ?thesis by (simp add: scrollTo_unfold setState_null)
qed

lemma resetIsScrollingDebounced_trace:
  "trace (resetIsScrollingDebounced c) =
     trace c @ (case resetIsScrollingTimeoutId c of None \<Rightarrow> [] | Some t \<Rightarrow> [CancelTimeout t]) @
     [RequestTimeout (nextTimeoutId c)]"
  by (simp add: resetIsScrollingDebounced_def requestTimeout_def cancelTimeout_def
           split: option.splits)

lemma resetIsScrollingDebounced_memo:
  "lastItemsRendered (resetIsScrollingDebounced c) = lastItemsRendered c \<and>
   lastOnScroll (resetIsScrollingDebounced c) = lastOnScroll c"
  by (simp add: resetIsScrollingDebounced_def requestTimeout_def cancelTimeout_def
           split: option.splits)

text \<open>
  C5 (amended): calling \<open>scrollTo\<close> with the committed \<open>scrollOffset\<close>, when that offset is
  not negative on a vertical list or does not normalize to a negative value on a
  horizontal list, changes no field of the state and calls neither \<open>onItemsRendered\<close>
  nor \<open>onScroll\<close>.
\<close>

theorem scrollTo_same_offset_is_noop:
  assumes "if isHorizontal (props c)
           then 0 \<le> normalizeScrollLeft f (mappedDirectionForNormalization (props c))
                      (scrollOffset (state c)) (width (props c))
                      (fst (getEstimatedTotalSize f (props c) (instanceProps c)))
           else 0 \<le> scrollOffset (state c)"
  shows "state (scrollTo f (scrollOffset (state c)) c) = state c \<and>
         filter isHostCallback (trace (scrollTo f (scrollOffset (state c)) c)) =
           filter isHostCallback (trace c) \<and>
         lastItemsRendered (scrollTo f (scrollOffset (state c)) c) = lastItemsRendered c \<and>
         lastOnScroll (scrollTo f (scrollOffset (state c)) c) = lastOnScroll c"
proof (cases "isHorizontal (props c)")
  case False
  then have t: "scrollToTarget f (scrollOffset (state c)) c = ((scrollOffset (state c), None), c)"
    using assms by (simp add: scrollToTarget_vertical)
  then have "scrollTo f (scrollOffset (state c)) c = resetIsScrollingDebounced c"
    using scrollTo_noop [of f "scrollOffset (state c)" c] by simp
  then show ?thesis
    by (simp add: resetIsScrollingDebounced_state resetIsScrollingDebounced_trace
                  resetIsScrollingDebounced_memo split: option.splits)
next
  case True
  let ?c1 = "snd (callGetEstimatedTotalSize f c)"
  have "fst (fst (scrollToTarget f (scrollOffset (state c)) c)) = scrollOffset (state c)"
    and "snd (scrollToTarget f (scrollOffset (state c)) c) = ?c1"
    using True assms by (simp_all add: scrollToTarget_horizontal Let_def)
  then have "scrollTo f (scrollOffset (state c)) c = resetIsScrollingDebounced ?c1"
    using scrollTo_noop [of f "scrollOffset (state c)" c] by simp
  moreover have "state ?c1 = state c" "trace ?c1 = trace c @ [GetEstimatedTotalSize]"
    "lastItemsRendered ?c1 = lastItemsRendered c" "lastOnScroll ?c1 = lastOnScroll c"
    by (simp_all add: callGetEstimatedTotalSize_def split_beta)
  ultimately show ?thesis
    by (simp add: resetIsScrollingDebounced_state resetIsScrollingDebounced_trace
                  resetIsScrollingDebounced_memo split: option.splits)
qed

theorem scrollTo_same_offset_is_noop_witness:
  "0 \<le> scrollOffset (state exampleMountedVertical) \<and>
   state (scrollTo exampleFactory (scrollOffset (state exampleMountedVertical))
            exampleMountedVertical) = state exampleMountedVertical \<and>
   0 \<le> normalizeScrollLeft exampleFactory Ltr (scrollOffset (state exampleScrolling)) 300
          (fst (getEstimatedTotalSize exampleFactory exampleProps (instanceProps exampleScrolling))) \<and>
   state (scrollTo exampleFactory (scrollOffset (state exampleScrolling)) exampleScrolling) =
     state exampleScrolling"
proof -
  have pv: "props exampleMountedVertical = exampleVertical"
    by (rule exampleMountedVertical_props)
  have v: "\<not> isHorizontal (props exampleMountedVertical)"
    by (simp add: pv isHorizontal_def exampleVertical_def exampleProps_def)
  have ov: "0 \<le> scrollOffset (state exampleMountedVertical)"
    by (simp add: exampleMountedVertical_state)
  have ps: "props exampleScrolling = exampleProps"
    by (simp add: exampleScrolling_def scrollEvent_props exampleMounted_props)
  have h: "isHorizontal (props exampleScrolling)"
    by (simp add: ps isHorizontal_def exampleProps_def)
  have d: "mappedDirectionForNormalization exampleProps = Ltr" "width exampleProps = 300"
    by (simp_all add: mappedDirectionForNormalization_def exampleProps_def)
  have n: "normalizeScrollLeft exampleFactory Ltr x cw sw = x" for x cw sw
    by (simp add: exampleFactory_simps specNormalizeScrollLeft_def)
  have oh: "0 \<le> normalizeScrollLeft exampleFactory Ltr (scrollOffset (state exampleScrolling)) 300
          (fst (getEstimatedTotalSize exampleFactory exampleProps (instanceProps exampleScrolling)))"
    by (simp add: n exampleScrolling_state)
  have 1: "if isHorizontal (props exampleMountedVertical)
           then 0 \<le> normalizeScrollLeft exampleFactory
                      (mappedDirectionForNormalization (props exampleMountedVertical))
                      (scrollOffset (state exampleMountedVertical))
                      (width (props exampleMountedVertical))
                      (fst (getEstimatedTotalSize exampleFactory (props exampleMountedVertical)
                             (instanceProps exampleMountedVertical)))
           else 0 \<le> scrollOffset (state exampleMountedVertical)"
    using v ov by simp
  have 2: "if isHorizontal (props exampleScrolling)
           then 0 \<le> normalizeScrollLeft exampleFactory
                      (mappedDirectionForNormalization (props exampleScrolling))
                      (scrollOffset (state exampleScrolling))
                      (width (props exampleScrolling))
                      (fst (getEstimatedTotalSize exampleFactory (props exampleScrolling)
                             (instanceProps exampleScrolling)))
           else 0 \<le> scrollOffset (state exampleScrolling)"
    using h oh by (simp add: ps d)
  show ?thesis
    using scrollTo_same_offset_is_noop [OF 1] scrollTo_same_offset_is_noop [OF 2] ov oh
    by simp
qed

lemma exampleOverscrolled_facts:
  "props exampleOverscrolled = exampleVertical\<lparr>initialScrollOffset := Some (- 5)\<rparr>"
  "state exampleOverscrolled =
     \<lparr>isScrolling = False, scrollDirection = Forward, scrollOffset = - 5,
      normalizedScrollLeft = Some 0, scrollUpdateWasRequested = False\<rparr>"
  by (simp_all add: exampleOverscrolled_def mount_props mount_state constructor_state_vertical
                    exampleVertical_def exampleProps_def)

theorem scrollTo_same_offset_counterexample:
  "state (scrollTo exampleFactory (scrollOffset (state exampleOverscrolled)) exampleOverscrolled) \<noteq>
   state exampleOverscrolled"
proof -
  have "\<not> isHorizontal (props exampleOverscrolled)"
    by (simp add: exampleOverscrolled_facts isHorizontal_def exampleVertical_def exampleProps_def)
  then have "scrollOffset (state (scrollTo exampleFactory (scrollOffset (state exampleOverscrolled))
                                    exampleOverscrolled)) = 0"
    by (simp add: scrollTo_scrollOffset scrollToTarget_vertical exampleOverscrolled_facts)
  moreover have "scrollOffset (state exampleOverscrolled) = - 5"
    by (simp add: exampleOverscrolled_facts)
  ultimately show ?thesis by auto
qed

subsection \<open>The debounce timer\<close>

lemma timerInv_arm:
  assumes "timerInv c"
  shows "(case resetIsScrollingTimeoutId c of
            None \<Rightarrow> pendingTimeouts c
          | Some timeoutId \<Rightarrow> removeAll timeoutId (pendingTimeouts c)) @ [nextTimeoutId c] =
         [nextTimeoutId c]"
proof (cases "pendingTimeouts c")
  case Nil
  then show ?thesis by (simp split: option.splits)
next
  case (Cons t ts)
  then show ?thesis using assms by (cases ts) (simp_all add: timerInv_def)
qed

lemma timerInv_length: "timerInv c \<Longrightarrow> length (pendingTimeouts c) \<le> 1"
  by (cases "pendingTimeouts c"; cases "tl (pendingTimeouts c)") (auto simp: timerInv_def)

lemma armed_timerInv:
  "pendingTimeouts c = [t] \<Longrightarrow> resetIsScrollingTimeoutId c = Some t \<Longrightarrow> timerInv c"
  by (simp add: timerInv_def)

lemma setState_debounced_arms:
  assumes "timerInv c"
    and "pendingTimeouts c1 = pendingTimeouts c"
    and "resetIsScrollingTimeoutId c1 = resetIsScrollingTimeoutId c"
    and "nextTimeoutId c1 = nextTimeoutId c"
  shows "pendingTimeouts (setState f updater resetIsScrollingDebounced c1) = [nextTimeoutId c] \<and>
         resetIsScrollingTimeoutId (setState f updater resetIsScrollingDebounced c1) =
           Some (nextTimeoutId c)"
proof -
  have "timerInv c1" using assms by (auto simp: timerInv_def split: list.splits)
  then show ?thesis
    using setState_debounced_timers(1,3) [where c = c1 and f = f and updater = updater]
          timerInv_arm [of c1] assms(4)
    by simp
qed

lemma scrollTo_arms:
  "timerInv c \<Longrightarrow> pendingTimeouts (scrollTo f off c) = [nextTimeoutId c] \<and>
                 resetIsScrollingTimeoutId (scrollTo f off c) = Some (nextTimeoutId c)"
  using scrollToTarget_unchanged [of c f off]
  by (simp add: scrollTo_unfold setState_debounced_arms unchanged_def)

lemma scrollToItem_arms:
  "timerInv c \<Longrightarrow> pendingTimeouts (scrollToItem f index align c) = [nextTimeoutId c] \<and>
                 resetIsScrollingTimeoutId (scrollToItem f index align c) = Some (nextTimeoutId c)"
  using scrollToItemTarget_unchanged [of c f index align]
  by (simp add: scrollToItem_unfold setState_debounced_arms unchanged_def)

lemma scrollEvent_arms:
  "timerInv c \<Longrightarrow> pendingTimeouts (scrollEvent f el c) = [nextTimeoutId c] \<and>
                 resetIsScrollingTimeoutId (scrollEvent f el c) = Some (nextTimeoutId c)"
  by (simp add: scrollEvent_unfold setState_debounced_arms)

lemma timeoutFires_timerInv: "timerInv c \<Longrightarrow> timerInv (timeoutFires f t c)"
proof (cases "t \<in> set (pendingTimeouts c)")
  case False
  then show "timerInv c \<Longrightarrow> ?thesis" by (simp add: timeoutFires_def)
next
  case True
  assume inv: "timerInv c"
  have p: "pendingTimeouts c = [t]"
  proof (cases "pendingTimeouts c")
    case Nil
    then show ?thesis using True by simp
  next
    case (Cons u us)
    then show ?thesis using True inv by (cases us) (simp_all add: timerInv_def)
  qed
  let ?c = "c\<lparr>pendingTimeouts := removeAll t (pendingTimeouts c),
               resetIsScrollingTimeoutId := None\<rparr>"
  have "pendingTimeouts (resetIsScrolling f (c\<lparr>pendingTimeouts := removeAll t (pendingTimeouts c)\<rparr>)) =
        pendingTimeouts ?c"
    unfolding resetIsScrolling_def
    using setState_quiet_timers(3) [where callback = "getItemStyleCache ArgsReset" and c = ?c
                                      and f = f]
    by (simp add: getItemStyleCache_unchanged)
  then have "pendingTimeouts (timeoutFires f t c) = []"
    using True p by (simp add: timeoutFires_def)
  then show ?thesis by (simp add: timerInv_def)
qed

lemma componentWillUnmount_cancels:
  "timerInv c \<Longrightarrow> pendingTimeouts (componentWillUnmount c) = []"
  by (cases "pendingTimeouts c"; cases "tl (pendingTimeouts c)")
     (auto simp: timerInv_def componentWillUnmount_def cancelTimeout_def split: option.splits)

lemma act_timerInv: "timerInv c \<Longrightarrow> timerInv (act f a c)"
  using scrollTo_arms [of c f] scrollToItem_arms [of c f] scrollEvent_arms [of c f]
        timeoutFires_timerInv [of c f]
  by (cases a) (auto intro: armed_timerInv)

lemma run_timerInv: "timerInv c \<Longrightarrow> timerInv (run f as c)"
  by (induction as arbitrary: c) (simp_all add: act_timerInv)

lemma mount_timerInv: "timerInv (mount f p el)"
  using mount_timers [of f p el] by (simp add: timerInv_def)

text \<open>
  C6 (amended): every call of \<open>scrollTo\<close>, of \<open>scrollToItem\<close> and every scroll event,
  whether it changes the committed offset or not, cancels the pending debounce timer and
  schedules a new one. At every point at most one debounce timer is pending, and arming
  cancels the previous one first.
\<close>

theorem debounce_single_timer:
  fixes f :: "'i Factory" and as p el
  defines "c \<equiv> run f as (mount f p el)"
  shows "length (pendingTimeouts c) \<le> 1 \<and>
         pendingTimeouts (scrollTo f off c) = [nextTimeoutId c] \<and>
         pendingTimeouts (scrollToItem f index align c) = [nextTimeoutId c] \<and>
         pendingTimeouts (scrollEvent f ev c) = [nextTimeoutId c] \<and>
         trace (resetIsScrollingDebounced c) =
           trace c @
           (case resetIsScrollingTimeoutId c of None \<Rightarrow> [] | Some t \<Rightarrow> [CancelTimeout t]) @
           [RequestTimeout (nextTimeoutId c)]"
proof -
  have "timerInv c" unfolding c_def by (rule run_timerInv) (rule mount_timerInv)
  then show ?thesis
    using scrollTo_arms [of c f off] scrollToItem_arms [of c f index align]
          scrollEvent_arms [of c f ev] timerInv_length [of c]
    by (simp add: resetIsScrollingDebounced_trace)
qed

lemma exampleIdle_facts:
  "state exampleIdle = state exampleMountedVertical"
  "pendingTimeouts exampleIdle = [0]"
  "resetIsScrollingTimeoutId exampleIdle = Some 0"
  "nextTimeoutId exampleIdle = Suc 0"
  "props exampleIdle = exampleVertical"
proof -
  have v: "\<not> isHorizontal (props exampleMountedVertical)"
    by (simp add: exampleMountedVertical_props isHorizontal_def exampleVertical_def
                  exampleProps_def)
  have "fst (fst (scrollToTarget exampleFactory 0 exampleMountedVertical)) =
        scrollOffset (state exampleMountedVertical)"
    using v by (simp add: scrollToTarget_vertical exampleMountedVertical_state)
  then have e: "exampleIdle = resetIsScrollingDebounced exampleMountedVertical"
    using v scrollTo_noop [of exampleFactory 0 exampleMountedVertical]
    by (simp add: exampleIdle_def scrollToTarget_vertical)
  have t: "pendingTimeouts exampleMountedVertical = [] \<and> nextTimeoutId exampleMountedVertical = 0 \<and>
           resetIsScrollingTimeoutId exampleMountedVertical = None"
    unfolding exampleMountedVertical_def by (rule mount_timers)
  show "state exampleIdle = state exampleMountedVertical"
    by (simp add: e resetIsScrollingDebounced_state)
  show "pendingTimeouts exampleIdle = [0]"
    using t by (simp add: e resetIsScrollingDebounced_pending)
  show "resetIsScrollingTimeoutId exampleIdle = Some 0"
    using t by (simp add: e resetIsScrollingDebounced_id)
  show "nextTimeoutId exampleIdle = Suc 0"
    using t by (simp add: e resetIsScrollingDebounced_next)
  show "props exampleIdle = exampleVertical"
    using resetIsScrollingDebounced_continues [of exampleMountedVertical]
    by (simp add: e continues_def exampleMountedVertical_props)
qed

theorem debounce_rearmed_counterexample:
  "scrollOffset (state exampleIdle) = 0 \<and>
   state (scrollTo exampleFactory 0 exampleIdle) = state exampleIdle \<and>
   pendingTimeouts exampleIdle = [0] \<and>
   pendingTimeouts (scrollTo exampleFactory 0 exampleIdle) = [1] \<and>
   trace (scrollTo exampleFactory 0 exampleIdle) =
     trace exampleIdle @ [CancelTimeout 0, RequestTimeout 1]"
proof -
  have v: "\<not> isHorizontal (props exampleIdle)"
    by (simp add: exampleIdle_facts isHorizontal_def exampleVertical_def exampleProps_def)
  have o: "scrollOffset (state exampleIdle) = 0"
    by (simp add: exampleIdle_facts exampleMountedVertical_state)
  have "fst (fst (scrollToTarget exampleFactory 0 exampleIdle)) = scrollOffset (state exampleIdle)"
    using v o by (simp add: scrollToTarget_vertical)
  then have e: "scrollTo exampleFactory 0 exampleIdle = resetIsScrollingDebounced exampleIdle"
    using v scrollTo_noop [of exampleFactory 0 exampleIdle] by (simp add: scrollToTarget_vertical)
  show ?thesis
    by (simp add: e resetIsScrollingDebounced_state resetIsScrollingDebounced_pending
                  resetIsScrollingDebounced_trace exampleIdle_facts exampleMountedVertical_state)
qed

subsection \<open>The empty list\<close>

lemma continues_filter:
  "continues c c' \<Longrightarrow> itemCount (props c) = 0 \<Longrightarrow>
   filter isOnItemsRendered (trace c') = filter isOnItemsRendered (trace c)"
  by (auto simp: continues_def list_all_iff filter_empty_conv)

lemma unchanged_continues: "unchanged c c' \<Longrightarrow> continues c c'"
  by (simp add: unchanged_def)

lemma scrollTo_continues: "continues c (scrollTo f off c)"
proof -
  have "continues c (snd (scrollToTarget f off c))"
    by (rule unchanged_continues) (rule scrollToTarget_unchanged)
  moreover have "continues (snd (scrollToTarget f off c)) (scrollTo f off c)"
    unfolding scrollTo_unfold
    by (rule setState_continues) (rule resetIsScrollingDebounced_continues)
  ultimately show ?thesis by (rule continues_trans)
qed

lemma scrollToItem_continues: "continues c (scrollToItem f index align c)"
proof -
  have "continues c (snd (scrollToItemTarget f index align c))"
    by (rule unchanged_continues) (rule scrollToItemTarget_unchanged)
  moreover have "continues (snd (scrollToItemTarget f index align c)) (scrollToItem f index align c)"
    unfolding scrollToItem_unfold
    by (rule setState_continues) (rule resetIsScrollingDebounced_continues)
  ultimately show ?thesis by (rule continues_trans)
qed

lemma timeoutFires_continues: "continues c (timeoutFires f t c)"
proof (cases "t \<in> set (pendingTimeouts c)")
  case False
  then show ?thesis by (simp add: timeoutFires_def continues_refl)
next
  case True
  let ?c = "c\<lparr>pendingTimeouts := removeAll t (pendingTimeouts c),
               resetIsScrollingTimeoutId := None\<rparr>"
  have "continues ?c (setState f (\<lambda>prevState. Some (prevState\<lparr>isScrolling := False\<rparr>))
                        (getItemStyleCache ArgsReset) ?c)"
    by (rule setState_continues) (rule unchanged_continues, rule getItemStyleCache_unchanged)
  then show ?thesis using True
    by (simp add: timeoutFires_def resetIsScrolling_def continues_def)
qed

lemma act_continues: "continues c (act f a c)"
  by (cases a)
     (simp_all add: scrollTo_continues scrollToItem_continues scrollEvent_continues
                    timeoutFires_continues)

lemma run_continues: "continues c (run f as c)"
proof (induction as arbitrary: c)
  case Nil
  show ?case by (simp add: continues_refl)
next
  case (Cons a as)
  show ?case using act_continues [of c f a] Cons [of "act f a c"]
    by (auto intro: continues_trans)
qed

lemma render_empty:
  assumes "itemCount (props c) = 0"
  shows "items (fst (render f c)) = []"
    and "snd (render f c) = snd (callGetEstimatedTotalSize f c)"
  using assms by (simp_all add: render_def getRangeToRender_def split_beta)

lemma callPropsCallbacks_empty:
  assumes "itemCount (props c) = 0"
  shows "callPropsCallbacks f c =
           (if onScroll (props c)
            then callOnScroll (scrollDirection (state c)) (scrollOffset (state c))
                   (scrollUpdateWasRequested (state c)) c
            else c)"
  using assms by (simp add: callPropsCallbacks_def)

lemma constructor_trace:
  "filter isHostCallback (trace (constructor f p)) = [] \<and>
   filter isOnItemsRendered (trace (constructor f p)) = [] \<and>
   lastOnScroll (constructor f p) = None"
  by (simp add: constructor_def newComponent_def Let_def split_beta)

lemma mount_empty:
  assumes "itemCount p = 0"
  shows "filter isHostCallback (trace (mount f p el)) =
           (if onScroll p
            then [OnScroll Forward (scrollOffset (state (constructor f p))) False] else [])"
proof -
  let ?c0 = "constructor f p"
  let ?c1 = "snd (callGetEstimatedTotalSize f ?c0)"
  let ?c2 = "?c1\<lparr>outerRef := Some el\<rparr>"
  have p0: "props ?c0 = p" by (rule constructor_props)
  have r: "snd (render f ?c0) = ?c1" using assms by (simp add: render_empty p0)
  have c1: "props ?c1 = p" "state ?c1 = state ?c0" "lastOnScroll ?c1 = None"
    "filter isHostCallback (trace ?c1) = []"
    using constructor_trace [of f p]
    by (simp_all add: callGetEstimatedTotalSize_def split_beta p0)
  have s0: "scrollDirection (state ?c0) = Forward" "\<not> scrollUpdateWasRequested (state ?c0)"
    by (simp_all add: constructor_def newComponent_def Let_def split_beta)
  let ?c3 = "(case initialScrollOffset (props ?c2) of
                  None \<Rightarrow> ?c2
                | Some off \<Rightarrow>
                    (case outerRef ?c2 of
                       None \<Rightarrow> ?c2
                     | Some el \<Rightarrow>
                         if direction (props ?c2) = DirHorizontal \<or> layout (props ?c2) = Horizontal
                         then ?c2\<lparr>outerRef := Some (el\<lparr>scrollLeft := off\<rparr>)\<rparr>
                         else ?c2\<lparr>outerRef := Some (el\<lparr>scrollTop := off\<rparr>)\<rparr>))"
  have c3: "props ?c3 = p" "state ?c3 = state ?c0" "lastOnScroll ?c3 = None"
    "filter isHostCallback (trace ?c3) = []"
    using c1 by (simp_all split: option.splits)
  have "mount f p el = callPropsCallbacks f ?c3"
    using r by (simp add: mount_def componentDidMount_def split_beta Let_def)
  then have "mount f p el =
      (if onScroll p
       then callOnScroll Forward (scrollOffset (state ?c0)) False ?c3 else ?c3)"
    using assms c3 s0 by (simp add: callPropsCallbacks_empty)
  then show ?thesis using c3 by (simp add: callOnScroll_def)
qed

lemma onScrollTold_step:
  "onScrollTold c \<Longrightarrow> lastOnScroll c' = lastOnScroll c \<Longrightarrow> set (trace c) \<subseteq> set (trace c') \<Longrightarrow>
   onScrollTold c'"
  by (auto simp: onScrollTold_def split: option.splits)

lemma onScrollCurrent_told: "onScrollCurrent c \<Longrightarrow> onScrollTold c"
  by (simp add: onScrollCurrent_def onScrollTold_def)

lemma onScrollCurrent_step:
  "onScrollCurrent c \<Longrightarrow> lastOnScroll c' = lastOnScroll c \<Longrightarrow> state c' = state c \<Longrightarrow>
   set (trace c) \<subseteq> set (trace c') \<Longrightarrow> onScrollCurrent c'"
  by (auto simp: onScrollCurrent_def)

lemma continues_subset: "continues c c' \<Longrightarrow> set (trace c) \<subseteq> set (trace c')"
  by (auto simp: continues_def)

lemma callOnScroll_current:
  "onScrollTold c \<Longrightarrow>
   onScrollCurrent (callOnScroll (scrollDirection (state c)) (scrollOffset (state c))
                      (scrollUpdateWasRequested (state c)) c)"
  by (auto simp: callOnScroll_def onScrollCurrent_def onScrollTold_def)

lemma callPropsCallbacks_current:
  assumes "itemCount (props c) = 0" and "onScroll (props c)" and "onScrollTold c"
  shows "onScrollCurrent (callPropsCallbacks f c)"
  using assms callOnScroll_current [of c] by (simp add: callPropsCallbacks_empty)

lemma callPropsCallbacks_empty_trace:
  assumes "itemCount (props c) = 0"
  shows "trace (callPropsCallbacks f c) =
           (if onScroll (props c) \<and>
               lastOnScroll c \<noteq> Some (scrollDirection (state c), scrollOffset (state c),
                                      scrollUpdateWasRequested (state c))
            then trace c @ [OnScroll (scrollDirection (state c)) (scrollOffset (state c))
                              (scrollUpdateWasRequested (state c))]
            else trace c)"
  using assms by (simp add: callPropsCallbacks_empty callOnScroll_def)

lemma componentDidUpdate_empty:
  assumes "itemCount (props c) = 0"
  shows "trace (snd (componentDidUpdate f c)) =
           (if onScroll (props c) \<and>
               lastOnScroll c \<noteq> Some (scrollDirection (state c), scrollOffset (state c),
                                      scrollUpdateWasRequested (state c))
            then trace c @ [OnScroll (scrollDirection (state c)) (scrollOffset (state c))
                              (scrollUpdateWasRequested (state c))]
            else trace c)"
    and "onScroll (props c) \<Longrightarrow> onScrollTold c \<Longrightarrow> onScrollCurrent (snd (componentDidUpdate f c))"
proof -
  define c1 where "c1 = snd (if scrollUpdateWasRequested (state c) then
               (case outerRef c of
                  None \<Rightarrow> (None, c)
                | Some el \<Rightarrow>
                    if direction (props c) = DirHorizontal \<or> layout (props c) = Horizontal
                    then (Some (normalizeScrollLeft f (mappedDirectionForNormalization (props c))
                                  (scrollOffset (state c)) (width (props c)) (scrollWidth el)),
                          c\<lparr>outerRef := Some (el\<lparr>scrollLeft := scrollOffset (state c)\<rparr>)\<rparr>)
                    else (None, c\<lparr>outerRef := Some (el\<lparr>scrollTop := scrollOffset (state c)\<rparr>)\<rparr>))
             else (None::int option, c))"
  have c1: "props c1 = props c" "state c1 = state c" "trace c1 = trace c"
    "lastOnScroll c1 = lastOnScroll c"
    unfolding c1_def by (simp_all split: option.splits)
  have e: "snd (componentDidUpdate f c) = callPropsCallbacks f c1"
    unfolding c1_def by (simp add: componentDidUpdate_def split_beta)
  have z: "itemCount (props c1) = 0" using assms c1(1) by simp
  show "trace (snd (componentDidUpdate f c)) =
           (if onScroll (props c) \<and>
               lastOnScroll c \<noteq> Some (scrollDirection (state c), scrollOffset (state c),
                                      scrollUpdateWasRequested (state c))
            then trace c @ [OnScroll (scrollDirection (state c)) (scrollOffset (state c))
                              (scrollUpdateWasRequested (state c))]
            else trace c)"
    using callPropsCallbacks_empty_trace [OF z, of f] by (simp add: e c1)
  show "onScrollCurrent (snd (componentDidUpdate f c))"
    if o: "onScroll (props c)" and t: "onScrollTold c"
  proof -
    have "onScrollTold c1" by (rule onScrollTold_step [OF t]) (simp_all add: c1)
    moreover have "onScroll (props c1)" using o c1(1) by simp
    ultimately show ?thesis unfolding e using z by (intro callPropsCallbacks_current)
  qed
qed

lemma componentDidMount_empty:
  assumes "itemCount (props c) = 0"
  shows "trace (componentDidMount f c) =
           (if onScroll (props c) \<and>
               lastOnScroll c \<noteq> Some (scrollDirection (state c), scrollOffset (state c),
                                      scrollUpdateWasRequested (state c))
            then trace c @ [OnScroll (scrollDirection (state c)) (scrollOffset (state c))
                              (scrollUpdateWasRequested (state c))]
            else trace c)"
    and "onScroll (props c) \<Longrightarrow> onScrollTold c \<Longrightarrow> onScrollCurrent (componentDidMount f c)"
proof -
  define c1 where "c1 = (case initialScrollOffset (props c) of
                  None \<Rightarrow> c
                | Some off \<Rightarrow>
                    (case outerRef c of
                       None \<Rightarrow> c
                     | Some el \<Rightarrow>
                         if direction (props c) = DirHorizontal \<or> layout (props c) = Horizontal
                         then c\<lparr>outerRef := Some (el\<lparr>scrollLeft := off\<rparr>)\<rparr>
                         else c\<lparr>outerRef := Some (el\<lparr>scrollTop := off\<rparr>)\<rparr>))"
  have c1: "props c1 = props c" "state c1 = state c" "trace c1 = trace c"
    "lastOnScroll c1 = lastOnScroll c"
    unfolding c1_def by (simp_all split: option.splits)
  have e: "componentDidMount f c = callPropsCallbacks f c1"
    unfolding c1_def by (simp add: componentDidMount_def Let_def)
  have z: "itemCount (props c1) = 0" using assms c1(1) by simp
  show "trace (componentDidMount f c) =
           (if onScroll (props c) \<and>
               lastOnScroll c \<noteq> Some (scrollDirection (state c), scrollOffset (state c),
                                      scrollUpdateWasRequested (state c))
            then trace c @ [OnScroll (scrollDirection (state c)) (scrollOffset (state c))
                              (scrollUpdateWasRequested (state c))]
            else trace c)"
    using callPropsCallbacks_empty_trace [OF z, of f] by (simp add: e c1)
  show "onScrollCurrent (componentDidMount f c)"
    if o: "onScroll (props c)" and t: "onScrollTold c"
  proof -
    have "onScrollTold c1" by (rule onScrollTold_step [OF t]) (simp_all add: c1)
    moreover have "onScroll (props c1)" using o c1(1) by simp
    ultimately show ?thesis unfolding e using z by (intro callPropsCallbacks_current)
  qed
qed

lemma render_told:
  assumes "itemCount (props c) = 0" and "onScrollTold c"
  shows "onScrollTold (snd (render f c))"
  by (rule onScrollTold_step [OF assms(2)])
     (auto simp: render_empty [OF assms(1)] callGetEstimatedTotalSize_def split_beta)

lemma render_props_state:
  "props (snd (render f c)) = props c" "state (snd (render f c)) = state c"
  using render_unchanged [of c f] by (simp_all add: unchanged_def continues_def)

lemma commit_current:
  assumes "itemCount (props c) = 0" and "onScroll (props c)" and "onScrollTold c"
  shows "onScrollCurrent (snd (componentDidUpdate f (snd (render f c))))"
proof -
  have "onScrollTold (snd (render f c))" by (rule render_told [OF assms(1,3)])
  then show ?thesis
    using assms(1,2) componentDidUpdate_empty(2) [of "snd (render f c)" f]
    by (simp add: render_props_state)
qed

lemma commit_props:
  "props (snd (componentDidUpdate f (snd (render f c)))) = props c"
  using componentDidUpdate_unchanged [of "snd (render f c)" f]
  by (simp add: unchanged_props render_props_state)

lemma state_update_told: "onScrollTold c \<Longrightarrow> onScrollTold (c\<lparr>state := s\<rparr>)"
  by (erule onScrollTold_step) simp_all

lemma nestedSetState_current:
  assumes "itemCount (props c) = 0" and "onScroll (props c)" and "onScrollCurrent c"
  shows "onScrollCurrent (nestedSetState f n c)"
proof (cases "normalizedScrollLeft (state c) = Some n")
  case True
  then show ?thesis using assms(3) by (simp add: nestedSetState_def)
next
  case False
  let ?c0 = "c\<lparr>state := (state c)\<lparr>normalizedScrollLeft := Some n\<rparr>\<rparr>"
  have "onScrollTold ?c0"
    by (rule state_update_told) (rule onScrollCurrent_told [OF assms(3)])
  then have "onScrollCurrent (snd (componentDidUpdate f (snd (render f ?c0))))"
    using assms(1,2) commit_current [of ?c0 f] by simp
  then show ?thesis using False by (simp add: nestedSetState_def split_beta)
qed

text \<open>A callback that tells the host nothing and keeps props, state and memo.\<close>

lemma setState_current:
  assumes e: "itemCount (props c) = 0" and o: "onScroll (props c)" and j: "onScrollCurrent c"
    and cb: "\<And>x. props (callback x) = props x" "\<And>x. state (callback x) = state x"
            "\<And>x. lastOnScroll (callback x) = lastOnScroll x"
            "\<And>x. set (trace x) \<subseteq> set (trace (callback x))"
  shows "onScrollCurrent (setState f updater callback c)"
proof -
  have keep: "onScrollCurrent (callback x)" if "onScrollCurrent x" for x
    by (rule onScrollCurrent_step [OF that]) (simp_all add: cb)
  let ?s = "stateAfter updater (state c)"
  show ?thesis
  proof (cases "?s = state c")
    case True
    then have "setState f updater callback c = callback c"
      by (simp add: setState_def stateAfter_def split: option.splits)
    then show ?thesis using keep [OF j] by simp
  next
    case False
    let ?c = "c\<lparr>state := ?s\<rparr>"
    let ?c2 = "snd (componentDidUpdate f (snd (render f ?c)))"
    have r: "setState f updater callback c = rerender f callback ?c"
      using False by (simp add: setState_def stateAfter_def split: option.splits)
    have t: "onScrollTold ?c" by (rule state_update_told) (rule onScrollCurrent_told [OF j])
    have j2: "onScrollCurrent ?c2" using e o t commit_current [of ?c f] by simp
    have p2: "props ?c2 = props c" by (simp add: commit_props)
    have j3: "onScrollCurrent (callback ?c2)" by (rule keep [OF j2])
    have "rerender f callback ?c =
          (case fst (componentDidUpdate f (snd (render f ?c))) of
             None \<Rightarrow> callback ?c2
           | Some n \<Rightarrow> nestedSetState f n (callback ?c2))"
      by (simp add: rerender_def Let_def split_beta)
    moreover have "onScrollCurrent (nestedSetState f n (callback ?c2))" for n
    proof (rule nestedSetState_current [OF _ _ j3])
      show "itemCount (props (callback ?c2)) = 0" using e by (simp add: cb p2)
      show "onScroll (props (callback ?c2))" using o by (simp add: cb p2)
    qed
    ultimately show ?thesis using r j3 by (simp split: option.splits)
  qed
qed

lemma resetIsScrollingDebounced_quiet:
  "props (resetIsScrollingDebounced x) = props x"
  "state (resetIsScrollingDebounced x) = state x"
  "lastOnScroll (resetIsScrollingDebounced x) = lastOnScroll x"
  "set (trace x) \<subseteq> set (trace (resetIsScrollingDebounced x))"
  using resetIsScrollingDebounced_continues [of x]
  by (auto simp: continues_def resetIsScrollingDebounced_state resetIsScrollingDebounced_memo)

lemma getItemStyleCache_quiet:
  "props (getItemStyleCache a x) = props x"
  "state (getItemStyleCache a x) = state x"
  "lastOnScroll (getItemStyleCache a x) = lastOnScroll x"
  "set (trace x) \<subseteq> set (trace (getItemStyleCache a x))"
  by (simp_all add: getItemStyleCache_def)

lemma scrollToTarget_lastOnScroll:
  "lastOnScroll (snd (scrollToTarget f off c)) = lastOnScroll c"
  by (simp add: scrollToTarget_def callGetEstimatedTotalSize_def Let_def split_beta)

lemma call_lastOnScroll:
  "lastOnScroll (snd (callGetItemOffset f i c)) = lastOnScroll c"
  "lastOnScroll (snd (callGetEstimatedTotalSize f c)) = lastOnScroll c"
  "lastOnScroll (snd (callGetOffsetForIndexAndAlignment f i al off c)) = lastOnScroll c"
  "lastOnScroll (snd (callGetStartIndexForOffset f off c)) = lastOnScroll c"
  "lastOnScroll (snd (callGetStopIndexForStartIndex f a off c)) = lastOnScroll c"
  by (simp_all add: callGetItemOffset_def callGetEstimatedTotalSize_def
        callGetOffsetForIndexAndAlignment_def callGetStartIndexForOffset_def
        callGetStopIndexForStartIndex_def split_beta)

lemma scrollToItemTarget_lastOnScroll:
  "lastOnScroll (snd (scrollToItemTarget f index align c)) = lastOnScroll c"
proof (cases "isHorizontal (props c)")
  case False
  then show ?thesis
    by (simp add: scrollToItemTarget_def Let_def split_beta call_lastOnScroll)
next
  case True
  obtain n c1 where r1: "callGetOffsetForIndexAndAlignment f
      (max 0 (min index (itemCount (props c) - 1))) align (normalizedScrollLeft (state c)) c = (n, c1)"
    by (cases "callGetOffsetForIndexAndAlignment f
      (max 0 (min index (itemCount (props c) - 1))) align (normalizedScrollLeft (state c)) c")
  obtain a c2 where r2: "callGetStartIndexForOffset f (Some n) c1 = (a, c2)"
    by (cases "callGetStartIndexForOffset f (Some n) c1")
  obtain b c3 where r3: "callGetStopIndexForStartIndex f a (Some n) c2 = (b, c3)"
    by (cases "callGetStopIndexForStartIndex f a (Some n) c2")
  let ?m = "max 0 (min (itemCount (props c) - 1)
              (b + (if jsLess (normalizedScrollLeft (state c)) (Some n)
                    then max 1 (if overscanCount (props c) = 0 then 1 else overscanCount (props c))
                    else 1)))"
  obtain x c4 where r4: "callGetItemOffset f ?m c3 = (x, c4)"
    by (cases "callGetItemOffset f ?m c3")
  obtain W c5 where r5: "callGetEstimatedTotalSize f c4 = (W, c5)"
    by (cases "callGetEstimatedTotalSize f c4")
  have "lastOnScroll c1 = lastOnScroll c" using call_lastOnScroll(3) r1 by (metis snd_conv)
  moreover have "lastOnScroll c2 = lastOnScroll c1" using call_lastOnScroll(4) r2 by (metis snd_conv)
  moreover have "lastOnScroll c3 = lastOnScroll c2" using call_lastOnScroll(5) r3 by (metis snd_conv)
  moreover have "lastOnScroll c4 = lastOnScroll c3" using call_lastOnScroll(1) r4 by (metis snd_conv)
  moreover have "lastOnScroll c5 = lastOnScroll c4" using call_lastOnScroll(2) r5 by (metis snd_conv)
  ultimately show ?thesis using scrollToItemTarget_horizontal [OF True r1 r2 r3 r4 r5] by simp
qed

lemma target_current:
  "onScrollCurrent c \<Longrightarrow> unchanged c c1 \<Longrightarrow> lastOnScroll c1 = lastOnScroll c \<Longrightarrow>
   onScrollCurrent c1"
  by (rule onScrollCurrent_step [of c]) (simp_all add: unchanged_def continues_subset)

lemma act_current:
  assumes "itemCount (props c) = 0" and "onScroll (props c)" and "onScrollCurrent c"
  shows "onScrollCurrent (act f a c)"
proof (cases a)
  case (ScrollTo off)
  let ?c1 = "snd (scrollToTarget f off c)"
  have u: "unchanged c ?c1" by (rule scrollToTarget_unchanged)
  have "onScrollCurrent ?c1"
    using assms(3) u by (rule target_current) (rule scrollToTarget_lastOnScroll)
  then have "onScrollCurrent (scrollTo f off c)"
    unfolding scrollTo_unfold using assms(1,2) u
    by (intro setState_current [OF _ _ _ resetIsScrollingDebounced_quiet])
       (simp_all add: unchanged_props)
  then show ?thesis using ScrollTo by simp
next
  case (ScrollToItem index align)
  let ?c1 = "snd (scrollToItemTarget f index align c)"
  have u: "unchanged c ?c1" by (rule scrollToItemTarget_unchanged)
  have "onScrollCurrent ?c1"
    using assms(3) u by (rule target_current) (rule scrollToItemTarget_lastOnScroll)
  then have "onScrollCurrent (scrollToItem f index align c)"
    unfolding scrollToItem_unfold using assms(1,2) u
    by (intro setState_current [OF _ _ _ resetIsScrollingDebounced_quiet])
       (simp_all add: unchanged_props)
  then show ?thesis using ScrollToItem by simp
next
  case (ScrollEvent el)
  have "onScrollCurrent (c\<lparr>outerRef := Some el\<rparr>)"
    using assms(3) by (simp add: onScrollCurrent_def)
  then have "onScrollCurrent (scrollEvent f el c)"
    unfolding scrollEvent_unfold using assms(1,2)
    by (intro setState_current [OF _ _ _ resetIsScrollingDebounced_quiet]) simp_all
  then show ?thesis using ScrollEvent by simp
next
  case (TimeoutFires t)
  show ?thesis
  proof (cases "t \<in> set (pendingTimeouts c)")
    case False
    then show ?thesis using TimeoutFires assms(3) by (simp add: timeoutFires_def)
  next
    case True
    let ?c = "c\<lparr>pendingTimeouts := removeAll t (pendingTimeouts c),
                 resetIsScrollingTimeoutId := None\<rparr>"
    have "onScrollCurrent ?c" using assms(3) by (simp add: onScrollCurrent_def)
    then have "onScrollCurrent (setState f (\<lambda>prevState. Some (prevState\<lparr>isScrolling := False\<rparr>))
                                  (getItemStyleCache ArgsReset) ?c)"
      using assms(1,2) by (intro setState_current [OF _ _ _ getItemStyleCache_quiet]) simp_all
    then show ?thesis using True TimeoutFires
      by (simp add: timeoutFires_def resetIsScrolling_def)
  qed
qed

lemma act_props: "props (act f a c) = props c"
  using act_continues [of c f a] by (simp add: continues_def)

lemma run_current:
  "itemCount (props c) = 0 \<Longrightarrow> onScroll (props c) \<Longrightarrow> onScrollCurrent c \<Longrightarrow>
   onScrollCurrent (run f as c)"
proof (induction as arbitrary: c)
  case Nil
  then show ?case by simp
next
  case (Cons a as)
  have "onScrollCurrent (act f a c)" using Cons.prems by (rule act_current)
  then show ?case using Cons.prems Cons.IH [of "act f a c"] by (simp add: act_props)
qed

lemma mount_current:
  assumes "itemCount p = 0" and "onScroll p"
  shows "onScrollCurrent (mount f p el)"
proof -
  let ?c1 = "snd (render f (constructor f p))"
  have "onScrollTold (constructor f p)"
    using constructor_trace [of f p] by (simp add: onScrollTold_def)
  then have "onScrollTold ?c1" using assms(1) render_told [of "constructor f p" f]
    by (simp add: constructor_props)
  then have "onScrollTold (?c1\<lparr>outerRef := Some el\<rparr>)"
    by (rule onScrollTold_step) simp_all
  then have "onScrollCurrent (componentDidMount f (?c1\<lparr>outerRef := Some el\<rparr>))"
    using assms componentDidMount_empty(2) [of "?c1\<lparr>outerRef := Some el\<rparr>" f]
    by (simp add: render_props_state constructor_props)
  then show ?thesis by (simp add: mount_def split_beta)
qed

text \<open>
  C10: for an empty list \<open>onItemsRendered\<close> is never called, at mount or at any update,
  while \<open>onScroll\<close> (when supplied) is still called with the tuple of the current state:
  \<open>componentDidMount\<close> and \<open>componentDidUpdate\<close> hand it to the memoized \<open>_callOnScroll\<close>,
  which calls the host unless that tuple was the last one delivered, so after mounting
  and after every action the host has been told the current tuple. \<open>render\<close> creates no
  item.
\<close>

theorem empty_list_reports_no_items:
  assumes "itemCount (props c) = 0"
  shows "filter isOnItemsRendered (trace (componentDidMount f c)) =
           filter isOnItemsRendered (trace c) \<and>
         filter isOnItemsRendered (trace (snd (componentDidUpdate f c))) =
           filter isOnItemsRendered (trace c) \<and>
         filter isOnItemsRendered (trace (run f as c)) = filter isOnItemsRendered (trace c) \<and>
         filter isOnItemsRendered (trace (run f as (mount f (props c) el))) = [] \<and>
         filter isHostCallback (trace (mount f (props c) el)) =
           (if onScroll (props c)
            then [OnScroll Forward (scrollOffset (state (constructor f (props c)))) False]
            else []) \<and>
         callPropsCallbacks f c =
           (if onScroll (props c)
            then callOnScroll (scrollDirection (state c)) (scrollOffset (state c))
                   (scrollUpdateWasRequested (state c)) c
            else c) \<and>
         trace (componentDidMount f c) =
           (if onScroll (props c) \<and>
               lastOnScroll c \<noteq> Some (scrollDirection (state c), scrollOffset (state c),
                                      scrollUpdateWasRequested (state c))
            then trace c @ [OnScroll (scrollDirection (state c)) (scrollOffset (state c))
                              (scrollUpdateWasRequested (state c))]
            else trace c) \<and>
         trace (snd (componentDidUpdate f c)) =
           (if onScroll (props c) \<and>
               lastOnScroll c \<noteq> Some (scrollDirection (state c), scrollOffset (state c),
                                      scrollUpdateWasRequested (state c))
            then trace c @ [OnScroll (scrollDirection (state c)) (scrollOffset (state c))
                              (scrollUpdateWasRequested (state c))]
            else trace c) \<and>
         (onScroll (props c) \<longrightarrow> onScrollCurrent (run f as (mount f (props c) el))) \<and>
         items (fst (render f c)) = []"
proof -
  have 1: "filter isOnItemsRendered (trace (componentDidMount f c)) =
           filter isOnItemsRendered (trace c)"
    using assms by (intro continues_filter unchanged_continues componentDidMount_unchanged)
  have 2: "filter isOnItemsRendered (trace (snd (componentDidUpdate f c))) =
           filter isOnItemsRendered (trace c)"
    using assms by (intro continues_filter unchanged_continues componentDidUpdate_unchanged)
  have 3: "filter isOnItemsRendered (trace (run f as c)) = filter isOnItemsRendered (trace c)"
    using assms by (intro continues_filter run_continues)
  have m: "continues (constructor f (props c)) (mount f (props c) el)"
  proof -
    let ?c1 = "(snd (render f (constructor f (props c))))\<lparr>outerRef := Some el\<rparr>"
    have "unchanged (constructor f (props c)) (snd (render f (constructor f (props c))))"
      by (rule render_unchanged)
    then have "continues (constructor f (props c)) ?c1"
      by (intro continues_then_same [OF unchanged_continues]) simp_all
    moreover have "continues ?c1 (componentDidMount f ?c1)"
      by (rule unchanged_continues) (rule componentDidMount_unchanged)
    ultimately have "continues (constructor f (props c)) (componentDidMount f ?c1)"
      by (rule continues_trans)
    then show ?thesis by (simp add: mount_def split_beta)
  qed
  have "filter isOnItemsRendered (trace (mount f (props c) el)) = []"
    using continues_filter [OF m] assms constructor_trace [of f "props c"]
    by (simp add: constructor_props)
  moreover have "filter isOnItemsRendered (trace (run f as (mount f (props c) el))) =
        filter isOnItemsRendered (trace (mount f (props c) el))"
    using assms by (intro continues_filter run_continues) (simp add: mount_props)
  ultimately have 4: "filter isOnItemsRendered (trace (run f as (mount f (props c) el))) = []"
    by simp
  have 5: "onScrollCurrent (run f as (mount f (props c) el))" if o: "onScroll (props c)"
  proof (rule run_current)
    show "itemCount (props (mount f (props c) el)) = 0" using assms by (simp add: mount_props)
    show "onScroll (props (mount f (props c) el))" using o by (simp add: mount_props)
    show "onScrollCurrent (mount f (props c) el)" by (rule mount_current [OF assms o])
  qed
  show ?thesis
    using 1 2 3 4 5 mount_empty [OF assms, of f el] callPropsCallbacks_empty [OF assms, of f]
          render_empty(1) [OF assms, of f] componentDidMount_empty(1) [OF assms, of f]
          componentDidUpdate_empty(1) [OF assms, of f]
    by simp
qed

lemma exampleEmpty_facts:
  "props exampleEmpty = exampleProps\<lparr>itemCount := 0\<rparr>"
  "state exampleEmpty =
     \<lparr>isScrolling = False, scrollDirection = Forward, scrollOffset = 0,
      normalizedScrollLeft = Some 0, scrollUpdateWasRequested = False\<rparr>"
  by (simp_all add: exampleEmpty_def mount_props mount_state constructor_state_horizontal
                    exampleProps_def)

lemma exampleEmpty_scrollTo_state:
  "scrollDirection (state (scrollTo exampleFactory 100 exampleEmpty)) = Forward \<and>
   scrollOffset (state (scrollTo exampleFactory 100 exampleEmpty)) = 100 \<and>
   scrollUpdateWasRequested (state (scrollTo exampleFactory 100 exampleEmpty))"
proof -
  have h: "isHorizontal (props exampleEmpty)"
    by (simp add: exampleEmpty_facts isHorizontal_def exampleProps_def)
  have d: "mappedDirectionForNormalization (props exampleEmpty) = Ltr"
    by (simp add: exampleEmpty_facts mappedDirectionForNormalization_def exampleProps_def)
  have n: "normalizeScrollLeft exampleFactory Ltr x cw sw = x" for x cw sw
    by (simp add: exampleFactory_simps specNormalizeScrollLeft_def)
  have t: "fst (scrollToTarget exampleFactory 100 exampleEmpty) = (100, Some 100)"
    by (simp add: scrollToTarget_horizontal [OF h] d n Let_def)
  have "stateAfter (scrollToUpdater (props exampleEmpty) 100 (Some 100)) (state exampleEmpty) =
        \<lparr>isScrolling = False, scrollDirection = Forward, scrollOffset = 100,
         normalizedScrollLeft = Some 100, scrollUpdateWasRequested = True\<rparr>"
    using h by (simp add: stateAfter_def scrollToUpdater_def exampleEmpty_facts(2) jsLess_def)
  then show ?thesis
    using erased_fields [OF scrollTo_state [of exampleFactory 100 exampleEmpty]]
    by (simp add: t)
qed

theorem empty_list_reports_no_items_witness:
  "itemCount (props exampleEmpty) = 0 \<and> onScroll (props exampleEmpty) \<and>
   filter isOnItemsRendered
     (trace (run exampleFactory
               [ScrollTo 100, ScrollEvent (exampleElement\<lparr>scrollLeft := 40\<rparr>), TimeoutFires 1]
               exampleEmpty)) = filter isOnItemsRendered (trace exampleEmpty) \<and>
   filter isHostCallback (trace (mount exampleFactory (props exampleEmpty) exampleElement)) =
     [OnScroll Forward 0 False] \<and>
   lastOnScroll exampleEmpty = Some (Forward, 0, False) \<and>
   lastOnScroll (run exampleFactory [ScrollTo 100] exampleEmpty) = Some (Forward, 100, True) \<and>
   OnScroll Forward 100 True \<in> set (trace (run exampleFactory [ScrollTo 100] exampleEmpty)) \<and>
   trace (snd (componentDidUpdate exampleFactory
            (exampleEmpty\<lparr>state := \<lparr>isScrolling = False, scrollDirection = Forward,
                                      scrollOffset = 100, normalizedScrollLeft = Some 100,
                                      scrollUpdateWasRequested = True\<rparr>\<rparr>))) =
     trace exampleEmpty @ [OnScroll Forward 100 True] \<and>
   items (fst (render exampleFactory exampleEmpty)) = []"
proof -
  let ?s = "\<lparr>isScrolling = False, scrollDirection = Forward, scrollOffset = 100,
             normalizedScrollLeft = Some 100, scrollUpdateWasRequested = True\<rparr>"
  have p: "props exampleEmpty = exampleProps\<lparr>itemCount := 0\<rparr>" by (rule exampleEmpty_facts(1))
  have z: "itemCount (props exampleEmpty) = 0" by (simp add: p)
  have z': "itemCount (props (exampleEmpty\<lparr>state := ?s\<rparr>)) = 0" by (simp add: p)
  have o: "onScroll (props exampleEmpty)" by (simp add: p exampleProps_def)
  have s: "scrollOffset (state (constructor exampleFactory (exampleProps\<lparr>itemCount := 0\<rparr>))) = 0"
    by (simp add: constructor_state_horizontal exampleProps_def)
  have m: "mount exampleFactory (props exampleEmpty) exampleElement = exampleEmpty"
    unfolding p by (simp add: exampleEmpty_def)
  note w0 = empty_list_reports_no_items [OF z, of exampleFactory "[]" exampleElement]
  note w1 = empty_list_reports_no_items [OF z, of exampleFactory "[ScrollTo 100]" exampleElement]
  note w3 = empty_list_reports_no_items
              [OF z, of exampleFactory
                 "[ScrollTo 100, ScrollEvent (exampleElement\<lparr>scrollLeft := 40\<rparr>), TimeoutFires 1]"
                 exampleElement]
  note wu = empty_list_reports_no_items [OF z', of exampleFactory "[]" exampleElement]
  have c0: "onScrollCurrent exampleEmpty" using w0 o by (simp add: m)
  have l0: "lastOnScroll exampleEmpty = Some (Forward, 0, False)"
    using c0 by (simp add: onScrollCurrent_def exampleEmpty_facts(2))
  have c1: "onScrollCurrent (scrollTo exampleFactory 100 exampleEmpty)"
    using w1 o by (simp add: m)
  have l1: "lastOnScroll (run exampleFactory [ScrollTo 100] exampleEmpty) = Some (Forward, 100, True)"
    "OnScroll Forward 100 True \<in> set (trace (run exampleFactory [ScrollTo 100] exampleEmpty))"
    using c1 by (simp_all add: onScrollCurrent_def exampleEmpty_scrollTo_state)
  have u: "trace (snd (componentDidUpdate exampleFactory (exampleEmpty\<lparr>state := ?s\<rparr>))) =
           trace exampleEmpty @ [OnScroll Forward 100 True]"
    using wu o l0 by simp
  have r: "filter isOnItemsRendered
     (trace (run exampleFactory
               [ScrollTo 100, ScrollEvent (exampleElement\<lparr>scrollLeft := 40\<rparr>), TimeoutFires 1]
               exampleEmpty)) = filter isOnItemsRendered (trace exampleEmpty)"
    using w3 by blast
  have h: "filter isHostCallback (trace (mount exampleFactory (props exampleEmpty) exampleElement)) =
           [OnScroll Forward 0 False]"
    using w0 o by (simp add: p s)
  have i: "items (fst (render exampleFactory exampleEmpty)) = []" using w0 by blast
  show ?thesis using z o r h l0 l1 u i by simp
qed

subsection \<open>The order of operations in scrollToItem\<close>

lemma scrollToItem_continues_target:
  "continues (snd (scrollToItemTarget f index align c)) (scrollToItem f index align c)"
  unfolding scrollToItem_unfold
  by (rule setState_continues) (rule resetIsScrollingDebounced_continues)

text \<open>
  C2: on a horizontal list \<open>scrollToItem\<close> first asks the alignment policy for the
  normalized target, then the start and stop index for it, then calls \<open>getItemOffset\<close>
  at \<open>stopIndex + overscanForward\<close> clamped to \<open>[0, itemCount - 1]\<close>, then asks
  \<open>getEstimatedTotalSize\<close> again, and the offset it commits is \<open>normalizeScrollLeft\<close> of
  the normalized target for the total size that this last call returned.
\<close>

theorem scrollToItem_horizontal_order:
  assumes "isHorizontal (props c)"
    and "getOffsetForIndexAndAlignment f (props c) (max 0 (min index (itemCount (props c) - 1)))
           align (normalizedScrollLeft (state c)) (instanceProps c) = (n, i1)"
    and "getStartIndexForOffset f (props c) (Some n) i1 = (a, i2)"
    and "getStopIndexForStartIndex f (props c) a (Some n) i2 = (b, i3)"
    and "m = max 0 (min (itemCount (props c) - 1)
              (b + (if jsLess (normalizedScrollLeft (state c)) (Some n)
                    then max 1 (if overscanCount (props c) = 0 then 1 else overscanCount (props c))
                    else 1)))"
    and "getItemOffset f (props c) m i3 = (x, i4)"
    and "getEstimatedTotalSize f (props c) i4 = (W, i5)"
  shows "take 5 (drop (length (trace c)) (trace (scrollToItem f index align c))) =
           [GetOffsetForIndexAndAlignment (max 0 (min index (itemCount (props c) - 1))) align
              (normalizedScrollLeft (state c)),
            GetStartIndexForOffset (Some n),
            GetStopIndexForStartIndex a (Some n),
            GetItemOffset m,
            GetEstimatedTotalSize] \<and>
         scrollOffset (state (scrollToItem f index align c)) =
           normalizeScrollLeft f (mappedDirectionForNormalization (props c)) n
             (min (width (props c)) W) W"
proof -
  let ?i = "max 0 (min index (itemCount (props c) - 1))"
  let ?m = "max 0 (min (itemCount (props c) - 1)
              (b + (if jsLess (normalizedScrollLeft (state c)) (Some n)
                    then max 1 (if overscanCount (props c) = 0 then 1 else overscanCount (props c))
                    else 1)))"
  let ?e1 = "GetOffsetForIndexAndAlignment ?i align (normalizedScrollLeft (state c))"
  let ?c1 = "c\<lparr>instanceProps := i1, trace := trace c @ [?e1]\<rparr>"
  let ?c2 = "?c1\<lparr>instanceProps := i2, trace := trace ?c1 @ [GetStartIndexForOffset (Some n)]\<rparr>"
  let ?c3 = "?c2\<lparr>instanceProps := i3, trace := trace ?c2 @ [GetStopIndexForStartIndex a (Some n)]\<rparr>"
  let ?c4 = "?c3\<lparr>instanceProps := i4, trace := trace ?c3 @ [GetItemOffset ?m]\<rparr>"
  let ?c5 = "?c4\<lparr>instanceProps := i5, trace := trace ?c4 @ [GetEstimatedTotalSize]\<rparr>"
  have m: "m = ?m" by (rule assms(5))
  have r1: "callGetOffsetForIndexAndAlignment f ?i align (normalizedScrollLeft (state c)) c = (n, ?c1)"
    using assms(2) by (simp add: callGetOffsetForIndexAndAlignment_def)
  have r2: "callGetStartIndexForOffset f (Some n) ?c1 = (a, ?c2)"
    using assms(3) by (simp add: callGetStartIndexForOffset_def)
  have r3: "callGetStopIndexForStartIndex f a (Some n) ?c2 = (b, ?c3)"
    using assms(4) by (simp add: callGetStopIndexForStartIndex_def)
  have r4: "callGetItemOffset f ?m ?c3 = (x, ?c4)"
    using assms(6) unfolding m by (simp add: callGetItemOffset_def)
  have r5: "callGetEstimatedTotalSize f ?c4 = (W, ?c5)"
    using assms(7) by (simp add: callGetEstimatedTotalSize_def)
  have t: "scrollToItemTarget f index align c =
           ((Some n,
             normalizeScrollLeft f (mappedDirectionForNormalization (props c)) n
               (min (width (props c)) W) W,
             if jsLess (normalizedScrollLeft (state c)) (Some n) then Forward else Backward), ?c5)"
    by (rule scrollToItemTarget_horizontal [OF assms(1) r1 r2 r3 r4 r5])
  have "continues ?c5 (scrollToItem f index align c)"
    using scrollToItem_continues_target [of f index align c] by (simp only: t snd_conv)
  then obtain evs where "trace (scrollToItem f index align c) = trace ?c5 @ evs"
    by (auto simp: continues_def)
  then have "trace (scrollToItem f index align c) =
      trace c @ [?e1, GetStartIndexForOffset (Some n), GetStopIndexForStartIndex a (Some n),
                 GetItemOffset m, GetEstimatedTotalSize] @ evs"
    unfolding m by simp
  then have "take 5 (drop (length (trace c)) (trace (scrollToItem f index align c))) =
      [?e1, GetStartIndexForOffset (Some n), GetStopIndexForStartIndex a (Some n),
       GetItemOffset m, GetEstimatedTotalSize]"
    by simp
  moreover have "scrollOffset (state (scrollToItem f index align c)) =
           normalizeScrollLeft f (mappedDirectionForNormalization (props c)) n
             (min (width (props c)) W) W"
    by (simp add: scrollToItem_scrollOffset t)
  ultimately show ?thesis by simp
qed

lemma exampleRtlList_facts:
  "props exampleRtlList = exampleRtl"
  "instanceProps exampleRtlList = - 1"
  "normalizedScrollLeft (state exampleRtlList) = Some 0"
  "trace exampleRtlList = [GetEstimatedTotalSize]"
  by (simp_all add: exampleRtlList_def constructor_props constructor_instanceProps_example)
     (simp_all add: constructor_def newComponent_def Let_def exampleFactory_simps exampleRtl_def
                    exampleProps_def specNormalizeScrollLeft_def
                    mappedDirectionForNormalization_def)

theorem scrollToItem_horizontal_order_witness:
  "isHorizontal (props exampleRtlList) \<and>
   take 5 (drop (length (trace exampleRtlList))
             (trace (scrollToItem exampleFactory 40 Start exampleRtlList))) =
     [GetOffsetForIndexAndAlignment 40 Start (Some 0), GetStartIndexForOffset (Some 2000),
      GetStopIndexForStartIndex 40 (Some 2000), GetItemOffset 48, GetEstimatedTotalSize] \<and>
   scrollOffset (state (scrollToItem exampleFactory 40 Start exampleRtlList)) = 1680 \<and>
   getEstimatedTotalSize exampleFactory exampleRtl 45 = (3920, 45) \<and>
   getEstimatedTotalSize exampleFactory exampleRtl 48 = (3980, 48) \<and>
   normalizeScrollLeft exampleFactory Rtl 2000 300 3920 = 1620"
proof -
  have h: "isHorizontal (props exampleRtlList)"
    by (simp add: exampleRtlList_facts isHorizontal_def exampleRtl_def exampleProps_def)
  have v: "itemCount exampleRtl = 100" "overscanCount exampleRtl = 3" "width exampleRtl = 300"
    "mappedDirectionForNormalization exampleRtl = Rtl"
    by (simp_all add: exampleRtl_def exampleProps_def mappedDirectionForNormalization_def)
  have 1: "getOffsetForIndexAndAlignment exampleFactory (props exampleRtlList)
             (max 0 (min 40 (itemCount (props exampleRtlList) - 1))) Start
             (normalizedScrollLeft (state exampleRtlList)) (instanceProps exampleRtlList) =
           (2000, 40)"
    by (simp add: exampleRtlList_facts exampleFactory_simps v)
  have 2: "getStartIndexForOffset exampleFactory (props exampleRtlList) (Some 2000) 40 = (40, 40)"
    by (simp add: exampleRtlList_facts exampleFactory_simps v)
  have 3: "getStopIndexForStartIndex exampleFactory (props exampleRtlList) 40 (Some 2000) 40 =
           (45, 45)"
    by (simp add: exampleRtlList_facts exampleFactory_simps v)
  have 4: "(48::int) = max 0 (min (itemCount (props exampleRtlList) - 1)
              (45 + (if jsLess (normalizedScrollLeft (state exampleRtlList)) (Some 2000)
                    then max 1 (if overscanCount (props exampleRtlList) = 0 then 1
                                else overscanCount (props exampleRtlList))
                    else 1)))"
    by (simp add: exampleRtlList_facts v jsLess_def)
  have 5: "getItemOffset exampleFactory (props exampleRtlList) 48 45 = (2400, 48)"
    by (simp add: exampleFactory_simps)
  have 6: "getEstimatedTotalSize exampleFactory (props exampleRtlList) 48 = (3980, 48)"
    by (simp add: exampleRtlList_facts exampleFactory_simps v)
  have 7: "getEstimatedTotalSize exampleFactory exampleRtl 45 = (3920, 45)"
    by (simp add: exampleFactory_simps v)
  have 8: "normalizeScrollLeft exampleFactory Rtl 2000 300 3920 = 1620"
    "normalizeScrollLeft exampleFactory Rtl 2000 300 3980 = 1680"
    by (simp_all add: exampleFactory_simps specNormalizeScrollLeft_def)
  show ?thesis
    using scrollToItem_horizontal_order [OF h 1 2 3 4 5 6] h 6 7 8
    by (simp add: exampleRtlList_facts v)
qed

end
